theory Spec2Isabelle
  imports Main "HOL-Library.AList"
begin

section \<open>Patterns: \<^verbatim>\<open>getRegexFromPattern\<close>\<close>

text \<open>
  \<^verbatim>\<open>const getRegexFromPattern = pattern => new RegExp('^' + pattern.replace(/\*/g, '.*?') + '$');\<close>

  Strings are lists of characters (HOL's 8-bit characters; of the line terminators of
  JavaScript they include line feed and carriage return). The regular expressions the
  function can build are modelled for the fragment of the RegExp syntax made of ordinary
  characters, the dot and the lazy run \<^verbatim>\<open>.*?\<close> between the two anchors:
  \<open>parseRegExp\<close> reads a source text of this fragment and returns \<open>None\<close> on any
  other. What \<^verbatim>\<open>new RegExp\<close> makes of a source text outside the fragment is a
  parameter, \<open>other\<close>: the test function of the regular expression, or \<open>None\<close> when
  JavaScript throws a SyntaxError.
\<close>

fun replaceStar :: "string \<Rightarrow> string" where
  "replaceStar [] = []"
| "replaceStar (c # cs) =
     (if c = CHR ''*'' then ''.*?'' @ replaceStar cs else c # replaceStar cs)"

datatype atom = Lit char | AnyChar | LazyAny

definition syntaxChar :: "char \<Rightarrow> bool" where
  "syntaxChar c = (c \<in> set ''^$.*+?()[]{}|'' \<or> c = CHR 0x5C)"

definition lineTerminator :: "char \<Rightarrow> bool" where
  "lineTerminator c = (c = CHR 0x0A \<or> c = CHR 0x0D)"

fun parseBody :: "string \<Rightarrow> atom list option" where
  "parseBody [] = Some []"
| "parseBody (c # cs) =
     (if c = CHR ''.'' then
        (case cs of
           d # e # r \<Rightarrow>
             (if d = CHR ''*'' \<and> e = CHR ''?''
              then map_option (Cons LazyAny) (parseBody r)
              else map_option (Cons AnyChar) (parseBody cs))
         | _ \<Rightarrow> map_option (Cons AnyChar) (parseBody cs))
      else if syntaxChar c then None
      else map_option (Cons (Lit c)) (parseBody cs))"

definition parseRegExp :: "string \<Rightarrow> atom list option" where
  "parseRegExp src =
     (case src of
        [] \<Rightarrow> None
      | c # rest \<Rightarrow>
          (if c = CHR ''^'' \<and> rest \<noteq> [] \<and> last rest = CHR ''$''
           then parseBody (butlast rest) else None))"

datatype regExp = Modelled "atom list" | Other "string \<Rightarrow> bool"

definition newRegExp :: "(string \<Rightarrow> (string \<Rightarrow> bool) option) \<Rightarrow> string \<Rightarrow> regExp option" where
  "newRegExp other src =
     (case parseRegExp src of
        Some atoms \<Rightarrow> Some (Modelled atoms)
      | None \<Rightarrow> map_option Other (other src))"

definition getRegexFromPattern ::
  "(string \<Rightarrow> (string \<Rightarrow> bool) option) \<Rightarrow> string \<Rightarrow> regExp option" where
  "getRegexFromPattern other pattern = newRegExp other (''^'' @ replaceStar pattern @ ''$'')"

text \<open>
  \<^verbatim>\<open>regex.test(str)\<close> for an anchored regular expression without flags: a backtracking
  match of the whole string; the lazy run tries the shortest continuation first.
\<close>

fun regexTest :: "atom list \<Rightarrow> string \<Rightarrow> bool" where
  "regexTest [] s = (s = [])"
| "regexTest (Lit c # r) s = (case s of [] \<Rightarrow> False | x # xs \<Rightarrow> x = c \<and> regexTest r xs)"
| "regexTest (AnyChar # r) s =
     (case s of [] \<Rightarrow> False | x # xs \<Rightarrow> \<not> lineTerminator x \<and> regexTest r xs)"
| "regexTest (LazyAny # r) s =
     (regexTest r s \<or>
      (case s of [] \<Rightarrow> False | x # xs \<Rightarrow> \<not> lineTerminator x \<and> regexTest (LazyAny # r) xs))"

fun test :: "regExp \<Rightarrow> string \<Rightarrow> bool" where
  "test (Modelled atoms) s = regexTest atoms s"
| "test (Other f) s = f s"

text \<open>\<^verbatim>\<open>getRegexFromPattern(pattern).test(type)\<close>; \<open>None\<close> is a SyntaxError.\<close>

definition patternMatches ::
  "(string \<Rightarrow> (string \<Rightarrow> bool) option) \<Rightarrow> string \<Rightarrow> string \<Rightarrow> bool option" where
  "patternMatches other pattern type =
     map_option (\<lambda>r. test r type) (getRegexFromPattern other pattern)"





section \<open>Values, errors and the data of the store\<close>

text \<open>
  The engine never looks inside a state, a scope, a payload or a selector value: it
  passes them on and compares them with \<^verbatim>\<open>!==\<close>. They are the type variable \<open>'v\<close>,
  and HOL's equality on \<open>'v\<close> stands for JavaScript's strict equality (a primitive by
  value, an object by reference). The module \<^verbatim>\<open>./Frozen\<close> is not among the sources:
  what the store imports from it and uses is a parameter, a field of the record \<open>host\<close>,
  as are JavaScript's \<^verbatim>\<open>undefined\<close>, the truthiness of a value and the regular
  expressions outside the modelled fragment.

  The module \<^verbatim>\<open>./Errors\<close> is not among the sources either; an exception of
  \<^verbatim>\<open>invariant\<close> is identified by its error code, and the calls that build the
  message of an error are taken to return. \<open>Thrown\<close> is a value thrown by a handler,
  \<open>ThrownList\<close> the array of listener errors \<^verbatim>\<open>dispatch\<close> throws.

  An object used as a dictionary is a map, or, where the code runs over its keys, an
  association list in insertion order (the order of \<^verbatim>\<open>Object.keys\<close> for keys that
  are not array indices); names inherited from \<^verbatim>\<open>Object.prototype\<close> are not keys of
  the model. A field the source names \<^verbatim>\<open>_x\<close> is \<open>x'\<close> here, an absent property is
  \<open>None\<close>.

  A selector and a handler are functions of their arguments, as the documentation asks
  of them; a handler may throw, a selector is taken to return (memoizing it, as
  \<^verbatim>\<open>processCondition\<close> does, then changes nothing). Of the operations of the store,
  \<^verbatim>\<open>register\<close>, \<^verbatim>\<open>addListener\<close>, \<^verbatim>\<open>dispatch\<close>, \<^verbatim>\<open>undo\<close> and
  \<^verbatim>\<open>redo\<close> are modelled; \<^verbatim>\<open>unregister\<close>, the thunk \<^verbatim>\<open>addListener\<close> returns
  and the accessors of the debug mode are not.
\<close>

record 'v host =
  undefinedValue :: 'v
  truthy :: "'v \<Rightarrow> bool"
  regExpOther :: "string \<Rightarrow> (string \<Rightarrow> bool) option"
  initialValue :: 'v
  freeze :: "'v \<Rightarrow> 'v"
  unfreeze :: "'v \<Rightarrow> 'v"

datatype errorCode =
  duplicateEpic | invalidConditionType | invalidConditionSelector | noPassiveUpdaters
  | invalidHandlerUpdate | invalidEpicAction | noRepeatedExternalAction
  | noDispatchInEpicListener

datatype 'v exn =
  ReferenceError | TypeError | SyntaxError | Invariant errorCode | Thrown 'v
  | ThrownList "'v list"

record 'v action =
  type :: string
  payload :: 'v
  target :: "string option"

text \<open>
  A condition as the caller writes it: a string, an object, or an array of alternatives.
  \<open>itype\<close> is \<open>None\<close> when the property is not a string; \<open>iselector\<close> tells a falsy
  property from a truthy one that is not a function; \<open>ivalue\<close> is \<open>None\<close> when the object
  has no own property \<^verbatim>\<open>value\<close>. An array of alternatives has at least one element.
\<close>

datatype 'v selectorInput = NoSelector | NotAFunction | Selector "'v \<Rightarrow> string \<Rightarrow> 'v"

record 'v conditionObject =
  itype :: "string option"
  iselector :: "'v selectorInput"
  ivalue :: "'v option"
  ipassive :: bool
  irequired :: bool
  iid :: "string option"
  itarget :: "string option"

datatype 'v inputCondition =
  CString string
  | CObject "'v conditionObject"
  | CArray "'v inputCondition" "'v inputCondition list"

text \<open>The compiled condition, an object the store mutates in place during a cycle.\<close>

record 'v condition =
  ctype :: string
  selector :: "'v \<Rightarrow> string \<Rightarrow> 'v"
  "value" :: 'v
  "passive" :: bool
  required :: bool
  cid :: "string option"
  ctarget :: "string option"
  value' :: "'v option"
  matchedPattern :: bool

datatype 'v processed = PCondition "'v condition" | PArray "'v processed" "'v processed list"

fun processCondition :: "'v host \<Rightarrow> 'v inputCondition \<Rightarrow> 'v exn + 'v processed"
  and processConditions :: "'v host \<Rightarrow> 'v inputCondition list \<Rightarrow> 'v exn + 'v processed list"
where
  "processCondition F (CArray c cs) =
     (case processCondition F c of
        Inl e \<Rightarrow> Inl e
      | Inr p \<Rightarrow>
          (case processConditions F cs of Inl e \<Rightarrow> Inl e | Inr ps \<Rightarrow> Inr (PArray p ps)))"
| "processCondition F (CString s) =
     Inr (PCondition \<lparr>ctype = s, selector = (\<lambda>state _. state), value = initialValue F,
        passive = False, required = False, cid = None, ctarget = None,
        value' = None, matchedPattern = False\<rparr>)"
| "processCondition F (CObject c) =
     (case itype c of
        None \<Rightarrow> Inl (Invariant invalidConditionType)
      | Some t \<Rightarrow>
          (case iselector c of
             NotAFunction \<Rightarrow> Inl (Invariant invalidConditionSelector)
           | sel \<Rightarrow>
               Inr (PCondition \<lparr>ctype = t,
                  selector = (case sel of Selector f \<Rightarrow> f | _ \<Rightarrow> (\<lambda>state _. state)),
                  value = (case ivalue c of None \<Rightarrow> initialValue F | Some v \<Rightarrow> v),
                  passive = ipassive c, required = irequired c, cid = iid c,
                  ctarget = itarget c, value' = None, matchedPattern = False\<rparr>)))"
| "processConditions F [] = Inr []"
| "processConditions F (c # cs) =
     (case processCondition F c of
        Inl e \<Rightarrow> Inl e
      | Inr p \<Rightarrow>
          (case processConditions F cs of Inl e \<Rightarrow> Inl e | Inr ps \<Rightarrow> Inr (p # ps)))"

text \<open>
  Condition objects are shared: the vectors \<^verbatim>\<open>splitConditions\<close> makes of one reducer
  hold the same objects, and an updater is the same object under every type it is
  registered for. So compiled conditions live in a store of objects, \<open>conds\<close>, and
  are named by their address.
\<close>

type_synonym addr = nat

datatype condRef = Ref addr | Arr condRef "condRef list"

fun allocate :: "'v processed \<Rightarrow> (addr \<Rightarrow> 'v condition) \<times> nat \<Rightarrow> condRef \<times> (addr \<Rightarrow> 'v condition) \<times> nat"
  and allocateAll :: "'v processed list \<Rightarrow> (addr \<Rightarrow> 'v condition) \<times> nat \<Rightarrow> condRef list \<times> (addr \<Rightarrow> 'v condition) \<times> nat"
where
  "allocate (PCondition c) (h, n) = (Ref n, h(n := c), Suc n)"
| "allocate (PArray p ps) hn =
     (case allocate p hn of (r, hn') \<Rightarrow>
        (case allocateAll ps hn' of (rs, hn'') \<Rightarrow> (Arr r rs, hn'')))"
| "allocateAll [] hn = ([], hn)"
| "allocateAll (p # ps) hn =
     (case allocate p hn of (r, hn') \<Rightarrow>
        (case allocateAll ps hn' of (rs, hn'') \<Rightarrow> (r # rs, hn'')))"

text \<open>
  \<^verbatim>\<open>splitConditions\<close>: the scan (\<^verbatim>\<open>some\<close>) stops at the first array; each of its
  alternatives is put in its place and the vector is split again, which passes the
  elements before it once more and meets the alternative. \<open>pre\<close> holds the elements
  already passed.
\<close>

fun splitFrom :: "addr list \<Rightarrow> condRef list \<Rightarrow> addr list list" where
  "splitFrom pre [] = [pre]"
| "splitFrom pre (Ref a # rest) = splitFrom (pre @ [a]) rest"
| "splitFrom pre (Arr c cs # rest) = concat (map (\<lambda>x. splitFrom pre (x # rest)) (c # cs))"

definition splitConditions :: "condRef list \<Rightarrow> addr list list" where
  "splitConditions conditions = splitFrom [] conditions"

section \<open>The store\<close>

text \<open>
  A handler of a reducer is a function of the values of its conditions and of the
  context object; it returns its update or throws. A handler of a listener gets the
  values and the source action.
\<close>

record 'v handlerContext =
  hstate :: 'v
  currentCycleState :: 'v
  hscope :: 'v
  currentCycleScope :: 'v
  hsourceAction :: "'v action option"
  currentAction :: "'v action"

record 'v handlerUpdate =
  ustate :: "'v option"
  uscope :: "'v option"
  uactions :: "'v action list option"
  upassive :: bool

type_synonym 'v handler = "'v list \<Rightarrow> 'v handlerContext \<Rightarrow> 'v exn + 'v handlerUpdate"

type_synonym 'v listenerHandler = "'v list \<Rightarrow> 'v action \<Rightarrow> 'v exn option"

record 'v updater =
  epic :: string
  handler :: "'v handler"
  conditions :: "addr list"
  index :: nat

text \<open>
  An Epic object is its own default instance: \<open>self\<close> holds its \<^verbatim>\<open>state\<close>,
  \<^verbatim>\<open>scope\<close> and, during a cycle, \<^verbatim>\<open>_state\<close> and \<^verbatim>\<open>_scope\<close>.
\<close>

record 'v epicInstance =
  state :: 'v
  scope :: 'v
  state' :: "'v option"
  scope' :: "'v option"

record 'v epicObject =
  self :: "'v epicInstance"
  updaters :: "'v updater list list"
  instances :: "(string \<times> 'v epicInstance) list option"

datatype instanceKey = defaultEpicInstanceKey | Id string

record 'v listener =
  lconditions :: "condRef list"
  lhandler :: "'v listenerHandler"
  processed :: bool

text \<open>
  What \<^verbatim>\<open>makeHandleUpdate\<close> would record under \<^verbatim>\<open>undoEntry[epicName][id]\<close>: for
  the entities \<^verbatim>\<open>state\<close> and \<^verbatim>\<open>scope\<close>, the pair of patches \<^verbatim>\<open>{undo, redo}\<close>.
\<close>

record 'v entityChanges =
  stateChange :: "('v \<times> 'v) option"
  scopeChange :: "('v \<times> 'v) option"

type_synonym 'v undoEntry = "(string \<times> (instanceKey \<times> 'v entityChanges) list) list"

record config =
  debug :: bool
  patterns :: bool
  undo :: bool
  maxUndoStack :: int

text \<open>
  The variables \<^verbatim>\<open>createStore\<close> closes over, and those of the closure of
  \<^verbatim>\<open>dispatch\<close>. \<open>epicCache\<close> holds the names entered into \<^verbatim>\<open>epicCache\<close>: the
  object under a name is created empty, and nothing is ever stored in it (no statement
  of \<^verbatim>\<open>dispatch\<close> writes to \<^verbatim>\<open>epicCache\<close>, and in \<^verbatim>\<open>handleChange\<close> the one
  assignment evaluates a call that throws first). \<open>handlerCalls\<close> is no variable of
  the source: it is the trace of the calls of reducer handlers, each with the updater
  (Epic and index), the triggering condition, the instance and the values passed.
\<close>

record 'v handlerCall =
  callEpic :: string
  callIndex :: nat
  callActive :: addr
  callInstance :: instanceKey
  callValues :: "'v list"

record 'v store =
  epicRegistry :: "string \<rightharpoonup> 'v epicObject"
  updaterRegistry :: "string \<rightharpoonup> 'v updater list"
  patternRegistry :: "(string \<times> 'v updater list) list"
  epicListeners :: "string \<rightharpoonup> (instanceKey \<rightharpoonup> nat list)"
  patternListeners :: "(string \<times> (instanceKey \<rightharpoonup> nat list)) list"
  listeners :: "nat \<Rightarrow> 'v listener"
  listenerCount :: nat
  conds :: "addr \<Rightarrow> 'v condition"
  condCount :: nat
  undoStack :: "'v undoEntry list"
  redoStack :: "'v undoEntry list"
  sourceAction :: "'v action option"
  epicCache :: "string list"
  actionCache :: "string \<rightharpoonup> 'v"
  conditionCache :: "addr list"
  inCycle :: bool
  afterCycle :: bool
  undoEntry :: "'v undoEntry"
  handlerCalls :: "'v handlerCall list"

definition createStore :: "'v host \<Rightarrow> 'v store" where
  "createStore F =
     \<lparr>epicRegistry = Map.empty, updaterRegistry = Map.empty, patternRegistry = [],
      epicListeners = Map.empty, patternListeners = [],
      listeners = (\<lambda>_. \<lparr>lconditions = [], lhandler = (\<lambda>_ _. None), processed = False\<rparr>),
      listenerCount = 0,
      conds = (\<lambda>_. \<lparr>ctype = [], selector = (\<lambda>state _. state), value = initialValue F,
         passive = False, required = False, cid = None, ctarget = None, value' = None,
         matchedPattern = False\<rparr>),
      condCount = 0, undoStack = [], redoStack = [], sourceAction = None, epicCache = [],
      actionCache = Map.empty, conditionCache = [], inCycle = False, afterCycle = False,
      undoEntry = [], handlerCalls = []\<rparr>"

subsection \<open>\<^verbatim>\<open>store.register\<close>\<close>

text \<open>\<^verbatim>\<open>/\*/.test(type)\<close>\<close>

definition hasStar :: "string \<Rightarrow> bool" where
  "hasStar t = (CHR ''*'' \<in> set t)"

text \<open>\<^verbatim>\<open>if (!registry[type]) registry[type] = []; registry[type].push(x);\<close>\<close>

fun pushOrdered :: "string \<Rightarrow> 'a \<Rightarrow> (string \<times> 'a list) list \<Rightarrow> (string \<times> 'a list) list" where
  "pushOrdered k x [] = [(k, [x])]"
| "pushOrdered k x ((k', xs) # r) =
     (if k' = k then (k', xs @ [x]) # r else (k', xs) # pushOrdered k x r)"

definition pushMap :: "string \<Rightarrow> 'a \<Rightarrow> (string \<rightharpoonup> 'a list) \<Rightarrow> (string \<rightharpoonup> 'a list)" where
  "pushMap k x m = m(k \<mapsto> (case m k of None \<Rightarrow> [] | Some xs \<Rightarrow> xs) @ [x])"

definition pushUpdater :: "config \<Rightarrow> 'v updater \<Rightarrow> 'v store \<Rightarrow> addr \<Rightarrow> 'v store" where
  "pushUpdater cfg u s a =
     (let t = ctype (conds s a) in
      if patterns cfg \<and> hasStar t
      then s\<lparr>patternRegistry := pushOrdered t u (patternRegistry s)\<rparr>
      else s\<lparr>updaterRegistry := pushMap t u (updaterRegistry s)\<rparr>)"

text \<open>The body of \<^verbatim>\<open>splitConditions(conditions).map(conditions => ...)\<close>.\<close>

fun registerVectors ::
  "config \<Rightarrow> string \<Rightarrow> 'v handler \<Rightarrow> nat \<Rightarrow> addr list list \<Rightarrow> 'v store
   \<Rightarrow> ('v exn + 'v updater list) \<times> 'v store" where
  "registerVectors cfg name h i [] s = (Inr [], s)"
| "registerVectors cfg name h i (v # vs) s =
     (if \<not> (\<exists>a \<in> set v. \<not> passive (conds s a))
      then (Inl (Invariant noPassiveUpdaters), s)
      else
        let u = \<lparr>epic = name, handler = h, conditions = v, index = i\<rparr>;
            s' = foldl (pushUpdater cfg u) s v
        in (case registerVectors cfg name h i vs s' of
              (Inl e, s'') \<Rightarrow> (Inl e, s'')
            | (Inr us, s'') \<Rightarrow> (Inr (u # us), s'')))"

record 'v updaterInput =
  iconditions :: "'v inputCondition list"
  ihandler :: "'v handler"

text \<open>The body of \<^verbatim>\<open>updaters.map(({ conditions, handler }, index) => ...)\<close>.\<close>

fun registerUpdaters ::
  "config \<Rightarrow> 'v host \<Rightarrow> string \<Rightarrow> nat \<Rightarrow> 'v updaterInput list \<Rightarrow> 'v store
   \<Rightarrow> ('v exn + 'v updater list list) \<times> 'v store" where
  "registerUpdaters cfg F name i [] s = (Inr [], s)"
| "registerUpdaters cfg F name i (u # us) s =
     (case processConditions F (iconditions u) of
        Inl e \<Rightarrow> (Inl e, s)
      | Inr ps \<Rightarrow>
          (case allocateAll ps (conds s, condCount s) of
             (refs, h, n) \<Rightarrow>
               (case registerVectors cfg name (ihandler u) i (splitConditions refs)
                       (s\<lparr>conds := h, condCount := n\<rparr>) of
                  (Inl e, s') \<Rightarrow> (Inl e, s')
                | (Inr g, s') \<Rightarrow>
                    (case registerUpdaters cfg F name (Suc i) us s' of
                       (Inl e, s'') \<Rightarrow> (Inl e, s'')
                     | (Inr gs, s'') \<Rightarrow> (Inr (g # gs), s'')))))"

record 'v registration =
  rname :: string
  rstate :: "'v option"
  rscope :: "'v option"
  rupdaters :: "'v updaterInput list"
  rinstance :: bool

definition register ::
  "config \<Rightarrow> 'v host \<Rightarrow> 'v registration \<Rightarrow> 'v store \<Rightarrow> ('v exn + unit) \<times> 'v store" where
  "register cfg F r s =
     (if epicRegistry s (rname r) \<noteq> None then (Inl (Invariant duplicateEpic), s)
      else
        (case registerUpdaters cfg F (rname r) 0 (rupdaters r) s of
           (Inl e, s') \<Rightarrow> (Inl e, s')
         | (Inr gs, s') \<Rightarrow>
             (Inr (),
              s'\<lparr>epicRegistry := (epicRegistry s')(rname r \<mapsto>
                   \<lparr>self = \<lparr>state = freeze F (case rstate r of None \<Rightarrow> initialValue F | Some v \<Rightarrow> v),
                            scope = freeze F (case rscope r of None \<Rightarrow> initialValue F | Some v \<Rightarrow> v),
                            state' = None, scope' = None\<rparr>,
                    updaters = gs,
                    instances = (if rinstance r then Some [] else None)\<rparr>)\<rparr>)))"

subsection \<open>Helpers of the dispatch cycle\<close>

datatype 'v actionInput = AString string | AObject "'v action"

text \<open>
  \<^verbatim>\<open>const validateAction = action => freeze(typeof action === 'string' ? { type: action } : action);\<close>
\<close>

definition validateAction :: "'v host \<Rightarrow> 'v actionInput \<Rightarrow> 'v action" where
  "validateAction F a =
     (case a of
        AString t \<Rightarrow> \<lparr>type = t, payload = undefinedValue F, target = None\<rparr>
      | AObject x \<Rightarrow> x\<lparr>payload := freeze F (payload x)\<rparr>)"

definition getSelectorValue :: "'v condition \<Rightarrow> 'v action \<Rightarrow> 'v" where
  "getSelectorValue c a = selector c (payload a) (type a)"

definition didConditionChange :: "'v condition \<Rightarrow> bool" where
  "didConditionChange c = (case value' c of None \<Rightarrow> False | Some v \<Rightarrow> v \<noteq> value c)"

definition getHandlerParams :: "'v host \<Rightarrow> 'v condition list \<Rightarrow> 'v list" where
  "getHandlerParams F cs =
     map (\<lambda>c. let v = (case value' c of Some x \<Rightarrow> x | None \<Rightarrow> value c)
              in if v = initialValue F then undefinedValue F else v) cs"

definition resetEpic :: "'v epicInstance \<Rightarrow> bool \<Rightarrow> 'v epicInstance" where
  "resetEpic e shouldUpdate =
     (let e' = (if shouldUpdate
                then e\<lparr>state := (case state' e of Some x \<Rightarrow> x | None \<Rightarrow> state e),
                       scope := (case scope' e of Some x \<Rightarrow> x | None \<Rightarrow> scope e)\<rparr>
                else e)
      in e'\<lparr>state' := None, scope' := None\<rparr>)"

definition resetCondition :: "bool \<Rightarrow> 'v condition \<Rightarrow> 'v condition" where
  "resetCondition shouldUpdate c =
     (let c' = (case value' c of
                  Some v \<Rightarrow> if shouldUpdate then c\<lparr>value := v\<rparr> else c
                | None \<Rightarrow> c)
      in c'\<lparr>value' := None, matchedPattern := False\<rparr>)"

subsection \<open>\<^verbatim>\<open>processUpdater\<close>\<close>

definition putInstance :: "string \<Rightarrow> instanceKey \<Rightarrow> 'v epicInstance \<Rightarrow> 'v store \<Rightarrow> 'v store" where
  "putInstance name key inst s =
     (case epicRegistry s name of
        None \<Rightarrow> s
      | Some e \<Rightarrow>
          (case key of
             defaultEpicInstanceKey \<Rightarrow> s\<lparr>epicRegistry := (epicRegistry s)(name \<mapsto> e\<lparr>self := inst\<rparr>)\<rparr>
           | Id k \<Rightarrow>
               s\<lparr>epicRegistry := (epicRegistry s)(name \<mapsto>
                    e\<lparr>instances := Some (AList.update k inst
                          (case instances e of None \<Rightarrow> [] | Some l \<Rightarrow> l))\<rparr>)\<rparr>))"

text \<open>
  The body of \<^verbatim>\<open>instances.forEach(([instance, id]) => ...)\<close>. The handler returns or
  throws. When it returns, the next statement is \<^verbatim>\<open>handleUpdate(scope)\<close>, and
  \<^verbatim>\<open>scope\<close> is bound nowhere: not in \<^verbatim>\<open>processUpdater\<close>, not in the closures
  around it (\<^verbatim>\<open>createStore\<close> binds \<^verbatim>\<open>debug\<close>, \<^verbatim>\<open>patterns\<close>, \<^verbatim>\<open>undo\<close>,
  \<^verbatim>\<open>maxUndoStack\<close>), not among the imports of the module. Evaluating the argument
  throws a ReferenceError before \<^verbatim>\<open>handleUpdate\<close> is entered, so the rest of the body
  (the merge of the update, the chained Epic action, the actions of the update) never
  runs.
\<close>

definition instanceBody ::
  "'v host \<Rightarrow> 'v action \<Rightarrow> addr \<Rightarrow> 'v updater \<Rightarrow> bool \<Rightarrow> 'v epicInstance \<times> instanceKey
   \<Rightarrow> 'v store \<Rightarrow> ('v exn + unit) \<times> 'v store" where
  "instanceBody F action activeCondition u forcePassiveUpdate ik s =
     (case ik of (inst, key) \<Rightarrow>
        let inst' = inst\<lparr>state' := Some (case state' inst of Some x \<Rightarrow> x | None \<Rightarrow> state inst),
                         scope' := Some (case scope' inst of Some x \<Rightarrow> x | None \<Rightarrow> scope inst)\<rparr>;
            s1 = putInstance (epic u) key inst' s;
            params = getHandlerParams F (map (conds s1) (conditions u));
            ctx = \<lparr>hstate = state inst',
                   currentCycleState = (case state' inst of Some x \<Rightarrow> x | None \<Rightarrow> state inst),
                   hscope = scope inst',
                   currentCycleScope = (case scope' inst of Some x \<Rightarrow> x | None \<Rightarrow> scope inst),
                   hsourceAction = sourceAction s1, currentAction = action\<rparr>;
            s2 = s1\<lparr>handlerCalls := handlerCalls s1 @
                   [\<lparr>callEpic = epic u, callIndex = index u, callActive = activeCondition,
                     callInstance = key, callValues = params\<rparr>]\<rparr>
        in (case handler u params ctx of
              Inl e \<Rightarrow> (Inl e, s2)
            | Inr handlerUpdate \<Rightarrow> (Inl ReferenceError, s2)))"

fun eachInstance ::
  "'v host \<Rightarrow> 'v action \<Rightarrow> addr \<Rightarrow> 'v updater \<Rightarrow> bool \<Rightarrow> ('v epicInstance \<times> instanceKey) list
   \<Rightarrow> 'v store \<Rightarrow> ('v exn + unit) \<times> 'v store" where
  "eachInstance F action ac u fp [] s = (Inr (), s)"
| "eachInstance F action ac u fp (ik # rest) s =
     (case instanceBody F action ac u fp ik s of
        (Inl e, s') \<Rightarrow> (Inl e, s')
      | (Inr _, s') \<Rightarrow> eachInstance F action ac u fp rest s')"

text \<open>The two guards of \<^verbatim>\<open>processUpdater\<close>, in the order of the source.\<close>

definition passiveGuard :: "'v store \<Rightarrow> addr \<Rightarrow> 'v updater \<Rightarrow> bool" where
  "passiveGuard s activeCondition u =
     (passive (conds s activeCondition) \<and>
      \<not> (\<exists>c \<in> set (conditions u).
            \<not> passive (conds s c) \<and>
            (matchedPattern (conds s c) \<or> didConditionChange (conds s c))))"

definition conjunctionGuard :: "'v store \<Rightarrow> addr \<Rightarrow> 'v updater \<Rightarrow> bool" where
  "conjunctionGuard s activeCondition u =
     (\<not> (\<forall>c \<in> set (conditions u).
            c = activeCondition \<or> passive (conds s c) \<or> \<not> required (conds s c) \<or>
            matchedPattern (conds s c) \<or> didConditionChange (conds s c)))"

definition targetOf :: "'v action \<Rightarrow> string option" where
  "targetOf a = (case target a of Some t \<Rightarrow> if t = [] then None else Some t | None \<Rightarrow> None)"

definition processUpdater ::
  "'v host \<Rightarrow> 'v action \<Rightarrow> addr \<Rightarrow> 'v updater \<Rightarrow> bool \<Rightarrow> 'v store
   \<Rightarrow> ('v exn + unit) \<times> 'v store" where
  "processUpdater F action activeCondition u forcePassiveUpdate s =
     (if passiveGuard s activeCondition u then (Inr (), s)
      else if conjunctionGuard s activeCondition u then (Inr (), s)
      else
        (case epicRegistry s (epic u) of
           None \<Rightarrow> (Inl TypeError, s)
         | Some e \<Rightarrow>
             (case instances e of
                None \<Rightarrow>
                  eachInstance F action activeCondition u forcePassiveUpdate
                    [(self e, defaultEpicInstanceKey)] s
              | Some insts \<Rightarrow>
                  (case targetOf action of
                     Some t \<Rightarrow>
                       (case map_of insts t of
                          Some inst \<Rightarrow>
                            eachInstance F action activeCondition u forcePassiveUpdate
                              [(inst, Id t)] s
                        | None \<Rightarrow>
                            let inst = \<lparr>state = freeze F (unfreeze F (state (self e))),
                                        scope = freeze F (unfreeze F (scope (self e))),
                                        state' = None, scope' = None\<rparr>
                            in eachInstance F action activeCondition u forcePassiveUpdate
                                 [(inst, Id t)] (putInstance (epic u) (Id t) inst s))
                   | None \<Rightarrow>
                       eachInstance F action activeCondition u forcePassiveUpdate
                         (map (\<lambda>(k, inst). (inst, Id k)) insts) s))))"

subsection \<open>\<^verbatim>\<open>processAction\<close>\<close>

text \<open>
  The loop over \<^verbatim>\<open>updaterRegistry[action.type]\<close>. \<^verbatim>\<open>find\<close> returns
  \<^verbatim>\<open>undefined\<close> when no condition has the type, and the assignment to its
  \<^verbatim>\<open>_value\<close> then throws a TypeError.
\<close>

fun directUpdaters ::
  "'v host \<Rightarrow> 'v action \<Rightarrow> bool \<Rightarrow> 'v updater list \<Rightarrow> 'v store \<Rightarrow> ('v exn + unit) \<times> 'v store" where
  "directUpdaters F action external [] s = (Inr (), s)"
| "directUpdaters F action external (u # us) s =
     (case find (\<lambda>a. type action = ctype (conds s a)) (conditions u) of
        None \<Rightarrow> (Inl TypeError, s)
      | Some ac \<Rightarrow>
          let s1 = s\<lparr>conds := (conds s)(ac := (conds s ac)
                        \<lparr>value' := Some (getSelectorValue (conds s ac) action)\<rparr>),
                    conditionCache := conditionCache s @ [ac]\<rparr>
          in if \<not> external \<and> \<not> didConditionChange (conds s1 ac)
             then directUpdaters F action external us s1
             else (case processUpdater F action ac u False s1 of
                     (Inl e, s2) \<Rightarrow> (Inl e, s2)
                   | (Inr _, s2) \<Rightarrow> directUpdaters F action external us s2))"

text \<open>The loop over \<^verbatim>\<open>patternRegistry[key]\<close>.\<close>

fun patternUpdaters ::
  "'v host \<Rightarrow> 'v action \<Rightarrow> string \<Rightarrow> 'v updater list \<Rightarrow> 'v store \<Rightarrow> ('v exn + unit) \<times> 'v store" where
  "patternUpdaters F action key [] s = (Inr (), s)"
| "patternUpdaters F action key (u # us) s =
     (case find (\<lambda>a. key = ctype (conds s a)) (conditions u) of
        None \<Rightarrow> (Inl TypeError, s)
      | Some ac \<Rightarrow>
          let s1 = s\<lparr>conds := (conds s)(ac := (conds s ac)\<lparr>matchedPattern := True\<rparr>),
                    conditionCache := conditionCache s @ [ac]\<rparr>
          in (case processUpdater F action ac u (key = ''*'') s1 of
                (Inl e, s2) \<Rightarrow> (Inl e, s2)
              | (Inr _, s2) \<Rightarrow> patternUpdaters F action key us s2))"

text \<open>The loop over \<^verbatim>\<open>Object.keys(patternRegistry)\<close>.\<close>

fun patternKeys ::
  "'v host \<Rightarrow> 'v action \<Rightarrow> (string \<times> 'v updater list) list \<Rightarrow> 'v store
   \<Rightarrow> ('v exn + unit) \<times> 'v store" where
  "patternKeys F action [] s = (Inr (), s)"
| "patternKeys F action ((key, us) # rest) s =
     (case getRegexFromPattern (regExpOther F) key of
        None \<Rightarrow> (Inl SyntaxError, s)
      | Some regex \<Rightarrow>
          if test regex (type action)
          then (case patternUpdaters F action key us s of
                  (Inl e, s') \<Rightarrow> (Inl e, s')
                | (Inr _, s') \<Rightarrow> patternKeys F action rest s')
          else patternKeys F action rest s)"

definition processAction ::
  "config \<Rightarrow> 'v host \<Rightarrow> 'v action \<Rightarrow> bool \<Rightarrow> 'v store \<Rightarrow> ('v exn + unit) \<times> 'v store" where
  "processAction cfg F action external s =
     (if external \<and> epicRegistry s (type action) \<noteq> None
      then (Inl (Invariant invalidEpicAction), s)
      else if external \<and> actionCache s (type action) \<noteq> None
      then (Inl (Invariant noRepeatedExternalAction), s)
      else
        let s1 = s\<lparr>actionCache := (actionCache s)(type action \<mapsto> payload action)\<rparr>
        in (case directUpdaters F action external
                  (case updaterRegistry s1 (type action) of None \<Rightarrow> [] | Some us \<Rightarrow> us) s1 of
              (Inl e, s2) \<Rightarrow> (Inl e, s2)
            | (Inr _, s2) \<Rightarrow>
                if patterns cfg then patternKeys F action (patternRegistry s2) s2
                else (Inr (), s2)))"

subsection \<open>\<^verbatim>\<open>store.addListener\<close> and \<^verbatim>\<open>processEpicListeners\<close>\<close>

text \<open>
  \<^verbatim>\<open>addListener\<close> compiles the conditions, makes the listener object and pushes it
  under \<^verbatim>\<open>listeners[type][target]\<close> for each condition; an element that is an array
  has no \<^verbatim>\<open>type\<close> and no \<^verbatim>\<open>target\<close>, so its key is the string of
  \<^verbatim>\<open>undefined\<close> and its target the default. The result is the listener.
\<close>

fun listenerKey :: "'v store \<Rightarrow> condRef \<Rightarrow> string \<times> instanceKey" where
  "listenerKey s (Ref a) =
     (ctype (conds s a),
      (case ctarget (conds s a) of None \<Rightarrow> defaultEpicInstanceKey | Some t \<Rightarrow> Id t))"
| "listenerKey s (Arr c cs) = (''undefined'', defaultEpicInstanceKey)"

definition pushTarget :: "instanceKey \<Rightarrow> nat \<Rightarrow> (instanceKey \<rightharpoonup> nat list) \<Rightarrow> (instanceKey \<rightharpoonup> nat list)" where
  "pushTarget t l m = m(t \<mapsto> (case m t of None \<Rightarrow> [] | Some ls \<Rightarrow> ls) @ [l])"

fun pushPatternListener ::
  "string \<Rightarrow> instanceKey \<Rightarrow> nat \<Rightarrow> (string \<times> (instanceKey \<rightharpoonup> nat list)) list
   \<Rightarrow> (string \<times> (instanceKey \<rightharpoonup> nat list)) list" where
  "pushPatternListener k t l [] = [(k, pushTarget t l Map.empty)]"
| "pushPatternListener k t l ((k', m) # r) =
     (if k' = k then (k', pushTarget t l m) # r else (k', m) # pushPatternListener k t l r)"

definition pushListener :: "config \<Rightarrow> nat \<Rightarrow> 'v store \<Rightarrow> condRef \<Rightarrow> 'v store" where
  "pushListener cfg l s r =
     (case listenerKey s r of (t, tg) \<Rightarrow>
        if patterns cfg \<and> hasStar t
        then s\<lparr>patternListeners := pushPatternListener t tg l (patternListeners s)\<rparr>
        else s\<lparr>epicListeners := (epicListeners s)(t \<mapsto>
               pushTarget tg l (case epicListeners s t of None \<Rightarrow> Map.empty | Some m \<Rightarrow> m))\<rparr>)"


text \<open>
  \<^verbatim>\<open>processEpicListeners(epicCache, sourceAction)\<close>. For each name in the cache the
  patterns of the pattern listeners are tested against it; the loop over
  \<^verbatim>\<open>getInstances(epicCache[epicName])\<close> then runs over an object without keys (see
  \<open>epicCache\<close>), so no listener is collected and none is called, and the loop over
  \<^verbatim>\<open>epicListenerCache\<close> has nothing to reset. The function ends with
  \<^verbatim>\<open>return errors\<close>; no \<^verbatim>\<open>errors\<close> is bound in the module (the array is named
  \<^verbatim>\<open>postProcessingErrors\<close>), so the statement throws a ReferenceError.
\<close>

fun matchedListenerPatterns :: "'v host \<Rightarrow> string \<Rightarrow> string list \<Rightarrow> 'v exn + string list" where
  "matchedListenerPatterns F epicName [] = Inr []"
| "matchedListenerPatterns F epicName (key # keys) =
     (case getRegexFromPattern (regExpOther F) key of
        None \<Rightarrow> Inl SyntaxError
      | Some regex \<Rightarrow>
          (case matchedListenerPatterns F epicName keys of
             Inl e \<Rightarrow> Inl e
           | Inr ks \<Rightarrow> Inr (if test regex epicName then key # ks else ks)))"

fun updatedEpics ::
  "config \<Rightarrow> 'v host \<Rightarrow> string list \<Rightarrow> 'v store \<Rightarrow> ('v exn + unit) \<times> 'v store" where
  "updatedEpics cfg F [] s = (Inr (), s)"
| "updatedEpics cfg F (epicName # rest) s =
     (case (if patterns cfg
            then matchedListenerPatterns F epicName (map fst (patternListeners s))
            else Inr []) of
        Inl e \<Rightarrow> (Inl e, s)
      | Inr matchedPatterns \<Rightarrow> updatedEpics cfg F rest s)"

definition processEpicListeners ::
  "config \<Rightarrow> 'v host \<Rightarrow> string list \<Rightarrow> 'v action \<Rightarrow> 'v store
   \<Rightarrow> ('v exn + 'v list) \<times> 'v store" where
  "processEpicListeners cfg F cache srcAction s =
     (case updatedEpics cfg F cache s of
        (Inl e, s') \<Rightarrow> (Inl e, s')
      | (Inr _, s') \<Rightarrow> (Inl ReferenceError, s'))"

subsection \<open>\<^verbatim>\<open>store.dispatch\<close>\<close>

text \<open>
  The source is a module (it has \<^verbatim>\<open>import\<close> and \<^verbatim>\<open>export\<close>), and module code is
  strict: the assignment \<^verbatim>\<open>epicListenerCache = []\<close> of a fresh cycle, to a name
  declared only inside \<^verbatim>\<open>processEpicListeners\<close>, throws a ReferenceError. The
  parameter \<open>strict\<close> is the mode the code runs in, so that the model also says what
  follows the assignment where a loader runs the code as sloppy script (there the
  assignment makes a global variable and the cycle goes on).

  The loop over \<^verbatim>\<open>Object.keys(epicCache)\<close> that promotes or drops the staged state of
  the Epics: \<^verbatim>\<open>epic.instances\<close> throws a TypeError when the Epic is not registered,
  and for an Epic with instances the inner loop runs over the keys of an empty object.
\<close>

definition errorTruthy :: "'v host \<Rightarrow> 'v exn \<Rightarrow> bool" where
  "errorTruthy F e = (case e of Thrown v \<Rightarrow> truthy F v | _ \<Rightarrow> True)"

fun resetEpics :: "bool \<Rightarrow> string list \<Rightarrow> 'v store \<Rightarrow> ('v exn + unit) \<times> 'v store" where
  "resetEpics shouldUpdate [] s = (Inr (), s)"
| "resetEpics shouldUpdate (epicName # rest) s =
     (case epicRegistry s epicName of
        None \<Rightarrow> (Inl TypeError, s)
      | Some e \<Rightarrow>
          (case instances e of
             None \<Rightarrow>
               resetEpics shouldUpdate rest
                 (s\<lparr>epicRegistry := (epicRegistry s)(epicName \<mapsto>
                      e\<lparr>self := resetEpic (self e) shouldUpdate\<rparr>)\<rparr>)
           | Some _ \<Rightarrow> resetEpics shouldUpdate rest s))"

text \<open>
  \<^verbatim>\<open>if (undoStack.length === maxUndoStack) undoStack.shift(); undoStack.push(undoEntry); redoStack = [];\<close>
  (the newest entry is the last of the list).
\<close>

definition pushUndoEntry :: "config \<Rightarrow> 'v store \<Rightarrow> 'v store" where
  "pushUndoEntry cfg s =
     (let st = (if int (length (undoStack s)) = maxUndoStack cfg
                then tl (undoStack s) else undoStack s)
      in s\<lparr>undoStack := st @ [undoEntry s], redoStack := []\<rparr>)"

definition dispatch ::
  "bool \<Rightarrow> config \<Rightarrow> 'v host \<Rightarrow> 'v actionInput \<Rightarrow> 'v store \<Rightarrow> ('v exn + unit) \<times> 'v store" where
  "dispatch strict cfg F a s =
     (let action = validateAction F a in
      if inCycle s then processAction cfg F action True s
      else if afterCycle s then (Inl (Invariant noDispatchInEpicListener), s)
      else
        let s1 = s\<lparr>inCycle := True, undoEntry := [], epicCache := [], actionCache := Map.empty,
                  conditionCache := [], sourceAction := Some action\<rparr>
        in if strict then (Inl ReferenceError, s1)
           else
             (case processAction cfg F action True s1 of (r, s2) \<Rightarrow>
                let processingError = (case r of Inl e \<Rightarrow> Some e | Inr _ \<Rightarrow> None);
                    failed = (case processingError of Some e \<Rightarrow> errorTruthy F e | None \<Rightarrow> False);
                    s3 = s2\<lparr>inCycle := False, afterCycle := True\<rparr>
                in (case processEpicListeners cfg F (epicCache s3) action s3 of
                      (Inl e, s4) \<Rightarrow> (Inl e, s4)
                    | (Inr postProcessingErrors, s4) \<Rightarrow>
                        let s5 = foldl (\<lambda>s c. s\<lparr>conds := (conds s)(c :=
                                       resetCondition (\<not> failed) (conds s c))\<rparr>)
                                   s4 (conditionCache s4)
                        in (case resetEpics (\<not> failed) (epicCache s5) s5 of
                              (Inl e, s6) \<Rightarrow> (Inl e, s6)
                            | (Inr _, s6) \<Rightarrow>
                                let s7 = (if undo cfg \<and> \<not> failed then pushUndoEntry cfg s6 else s6);
                                    s8 = s7\<lparr>afterCycle := False\<rparr>
                                in (case processingError of
                                      Some e \<Rightarrow>
                                        if errorTruthy F e then (Inl e, s8)
                                        else if postProcessingErrors \<noteq> []
                                        then (Inl (ThrownList postProcessingErrors), s8)
                                        else (Inr (), s8)
                                    | None \<Rightarrow>
                                        if postProcessingErrors \<noteq> []
                                        then (Inl (ThrownList postProcessingErrors), s8)
                                        else (Inr (), s8))))))"

subsection \<open>\<^verbatim>\<open>store.undo\<close> and \<^verbatim>\<open>store.redo\<close>\<close>

text \<open>
  \<^verbatim>\<open>handleChange(from, to, key)\<close>. \<^verbatim>\<open>from.pop()\<close> of an empty stack is
  \<^verbatim>\<open>undefined\<close>, and \<^verbatim>\<open>Object.keys(undefined)\<close> throws a TypeError. For an
  instance of an entry, \<^verbatim>\<open>entry[epicName][id][key]\<close> is read with the key
  \<^verbatim>\<open>'undo'\<close> or \<^verbatim>\<open>'redo'\<close> from the object whose properties are the
  entities \<^verbatim>\<open>state\<close> and \<^verbatim>\<open>scope\<close>: it is \<^verbatim>\<open>undefined\<close>, and calling it throws
  a TypeError (as does reading \<^verbatim>\<open>instance.state\<close> when the Epic or the instance is
  missing), before anything is assigned.

  \<open>undoRedo Undo\<close> is \<^verbatim>\<open>store.undo\<close> and \<open>undoRedo Redo\<close> is
  \<^verbatim>\<open>store.redo\<close>. A store created without \<^verbatim>\<open>undo\<close> has neither method, and
  calling one throws a TypeError.
\<close>

datatype direction = Undo | Redo

fun getInstances :: "(instanceKey \<times> 'a) list \<Rightarrow> instanceKey list" where
  "getInstances obj =
     filter (\<lambda>k. k \<noteq> defaultEpicInstanceKey) (map fst obj) @
     (if defaultEpicInstanceKey \<in> set (map fst obj) then [defaultEpicInstanceKey] else [])"

fun entryEpics :: "'v undoEntry \<Rightarrow> string list \<Rightarrow> 'v exn + string list" where
  "entryEpics [] cache = Inr cache"
| "entryEpics ((epicName, changes) # rest) cache =
     (case getInstances changes of
        [] \<Rightarrow> entryEpics rest (if epicName \<in> set cache then cache else cache @ [epicName])
      | k # ks \<Rightarrow> Inl TypeError)"

definition handleChange :: "direction \<Rightarrow> 'v store \<Rightarrow> ('v exn + string list) \<times> 'v store" where
  "handleChange key s =
     (let from = (case key of Undo \<Rightarrow> undoStack s | Redo \<Rightarrow> redoStack s) in
      if from = [] then (Inl TypeError, s)
      else
        let entry = last from;
            s1 = (case key of Undo \<Rightarrow> s\<lparr>undoStack := butlast from\<rparr>
                            | Redo \<Rightarrow> s\<lparr>redoStack := butlast from\<rparr>)
        in (case entryEpics entry [] of
              Inl e \<Rightarrow> (Inl e, s1)
            | Inr cache \<Rightarrow>
                (Inr cache,
                 (case key of Undo \<Rightarrow> s1\<lparr>redoStack := redoStack s1 @ [entry]\<rparr>
                            | Redo \<Rightarrow> s1\<lparr>undoStack := undoStack s1 @ [entry]\<rparr>))))"

definition undoRedo ::
  "direction \<Rightarrow> config \<Rightarrow> 'v host \<Rightarrow> 'v store \<Rightarrow> ('v exn + unit) \<times> 'v store" where
  "undoRedo key cfg F s =
     (if \<not> undo cfg then (Inl TypeError, s)
      else
        (case handleChange key s of
           (Inl e, s') \<Rightarrow> (Inl e, s')
         | (Inr cache, s') \<Rightarrow>
             (case processEpicListeners cfg F cache
                     \<lparr>type = (case key of Undo \<Rightarrow> ''STORE_UNDO'' | Redo \<Rightarrow> ''STORE_REDO''),
                      payload = undefinedValue F, target = None\<rparr> s' of
                (Inl e, s'') \<Rightarrow> (Inl e, s'')
              | (Inr _, s'') \<Rightarrow> (Inr (), s''))))"

section \<open>Notions used in the statements\<close>

text \<open>
  The selection of instances in \<^verbatim>\<open>processUpdater\<close> is not empty: the Epic is
  registered, and it has no instances, or the action has a target, or it has at least
  one instance.
\<close>

definition instanceSelected :: "'v store \<Rightarrow> 'v action \<Rightarrow> 'v updater \<Rightarrow> bool" where
  "instanceSelected s action u =
     (case epicRegistry s (epic u) of
        None \<Rightarrow> False
      | Some e \<Rightarrow> instances e = None \<or> targetOf action \<noteq> None \<or> instances e \<noteq> Some [])"

text \<open>
  What a run leaves alone (the type, the committed value and the selector of every
  condition, the pattern registry and the two stacks), and how it extends the trace of
  handler calls.
\<close>

definition sameConditions :: "'v store \<Rightarrow> 'v store \<Rightarrow> bool" where
  "sameConditions s s' =
     (\<forall>a. ctype (conds s' a) = ctype (conds s a) \<and> value (conds s' a) = value (conds s a) \<and>
          selector (conds s' a) = selector (conds s a))"

definition callsExtend :: "'v store \<Rightarrow> 'v store \<Rightarrow> ('v handlerCall \<Rightarrow> bool) \<Rightarrow> bool" where
  "callsExtend s s' P =
     (\<exists>cs. handlerCalls s' = handlerCalls s @ cs \<and> list_all P cs)"

definition sameFrame :: "'v store \<Rightarrow> 'v store \<Rightarrow> bool" where
  "sameFrame s s' =
     (sameConditions s s' \<and> patternRegistry s' = patternRegistry s \<and>
      undoStack s' = undoStack s \<and> redoStack s' = redoStack s)"

definition changedFor :: "'v store \<Rightarrow> 'v action \<Rightarrow> 'v handlerCall \<Rightarrow> bool" where
  "changedFor s action c =
     (selector (conds s (callActive c)) (payload action) (type action) \<noteq>
      value (conds s (callActive c)))"

text \<open>The committed state and scope of the Epic registered under a name.\<close>

definition canonical :: "'v store \<Rightarrow> string \<Rightarrow> ('v \<times> 'v) option" where
  "canonical s name = map_option (\<lambda>e. (state (self e), scope (self e))) (epicRegistry s name)"





section \<open>Concrete stores\<close>

text \<open>
  Values, handlers and registrations for the concrete runs below. \<open>Initial\<close> is the
  sentinel \<^verbatim>\<open>initialValue\<close>; freezing and unfreezing leave these values as they are,
  and every regular expression outside the modelled fragment counts as a SyntaxError.
\<close>

datatype jsval = Undefined | Initial | Num int | Str string

definition exHost :: "jsval host" where
  "exHost =
     \<lparr>undefinedValue = Undefined,
      truthy = (\<lambda>v. v \<noteq> Undefined \<and> v \<noteq> Num 0 \<and> v \<noteq> Str []),
      regExpOther = (\<lambda>src. None),
      initialValue = Initial, freeze = (\<lambda>v. v), unfreeze = (\<lambda>v. v)\<rparr>"

definition exConfig :: config where
  "exConfig = \<lparr>debug = True, patterns = True, undo = True, maxUndoStack = 2\<rparr>"

definition setOne :: "jsval handler" where
  "setOne = (\<lambda>values ctx.
     Inr \<lparr>ustate = Some (Num 1), uscope = None, uactions = None, upassive = False\<rparr>)"

definition throwing :: "jsval handler" where
  "throwing = (\<lambda>values ctx. Inl (Thrown (Str ''boom'')))"

definition conditionOn :: "string \<Rightarrow> bool \<Rightarrow> bool \<Rightarrow> jsval inputCondition" where
  "conditionOn t p r =
     CObject \<lparr>itype = Some t, iselector = NoSelector, ivalue = None, ipassive = p,
       irequired = r, iid = None, itarget = None\<rparr>"

text \<open>
  \<^verbatim>\<open>register({name: 'e', updaters: [{conditions: ['a'], handler}, {conditions: [{type: 1}], handler}]})\<close>:
  the second reducer has a condition whose type is not a string.
\<close>

definition badSecondReducer :: "jsval registration" where
  "badSecondReducer =
     \<lparr>rname = ''e'', rstate = None, rscope = None,
      rupdaters =
        [\<lparr>iconditions = [CString ''a''], ihandler = setOne\<rparr>,
         \<lparr>iconditions = [CObject \<lparr>itype = None, iselector = NoSelector, ivalue = None,
             ipassive = False, irequired = False, iid = None, itarget = None\<rparr>],
           ihandler = setOne\<rparr>],
      rinstance = False\<rparr>"

text \<open>
  An Epic \<^verbatim>\<open>e\<close> with the state 0 and one reducer on the action \<^verbatim>\<open>a\<close>, registered
  as a singleton and as an Epic with instances; the updater the registration makes, and
  the action \<^verbatim>\<open>{type: 'a'}\<close>.
\<close>

definition singletonEpic :: "jsval registration" where
  "singletonEpic =
     \<lparr>rname = ''e'', rstate = Some (Num 0), rscope = None,
      rupdaters = [\<lparr>iconditions = [CString ''a''], ihandler = setOne\<rparr>],
      rinstance = False\<rparr>"

definition instancedEpic :: "jsval registration" where
  "instancedEpic = singletonEpic\<lparr>rinstance := True\<rparr>"

definition singletonStore :: "jsval store" where
  "singletonStore = snd (register exConfig exHost singletonEpic (createStore exHost))"

definition instancedStore :: "jsval store" where
  "instancedStore = snd (register exConfig exHost instancedEpic (createStore exHost))"

definition firstUpdater :: "jsval updater" where
  "firstUpdater = \<lparr>epic = ''e'', handler = setOne, conditions = [0], index = 0\<rparr>"

definition actionA :: "jsval action" where
  "actionA = \<lparr>type = ''a'', payload = Undefined, target = None\<rparr>"

text \<open>
  The Epic \<^verbatim>\<open>e\<close> with one reducer on the action \<^verbatim>\<open>a\<close> and the required condition
  \<^verbatim>\<open>b\<close>; the Epic \<^verbatim>\<open>e\<close> whose handler throws; the Epic \<^verbatim>\<open>e1\<close> with a reducer
  on the pattern \<^verbatim>\<open>a*\<close> and the Epic \<^verbatim>\<open>e2\<close> with a reducer on the Epic
  \<^verbatim>\<open>e1\<close>; a store whose undo stack holds two entries without changes.
\<close>

definition requiredEpic :: "jsval registration" where
  "requiredEpic =
     \<lparr>rname = ''e'', rstate = Some (Num 0), rscope = None,
      rupdaters = [\<lparr>iconditions = [CString ''a'', conditionOn ''b'' False True],
                    ihandler = setOne\<rparr>],
      rinstance = False\<rparr>"

definition requiredStore :: "jsval store" where
  "requiredStore = snd (register exConfig exHost requiredEpic (createStore exHost))"

definition actionA7 :: "jsval actionInput" where
  "actionA7 = AObject \<lparr>type = ''a'', payload = Num 7, target = None\<rparr>"

definition throwingEpic :: "jsval registration" where
  "throwingEpic =
     \<lparr>rname = ''e'', rstate = Some (Num 0), rscope = None,
      rupdaters = [\<lparr>iconditions = [CString ''a''], ihandler = throwing\<rparr>],
      rinstance = False\<rparr>"

definition throwingStore :: "jsval store" where
  "throwingStore = snd (register exConfig exHost throwingEpic (createStore exHost))"

definition patternEpic :: "jsval registration" where
  "patternEpic =
     \<lparr>rname = ''e1'', rstate = Some (Num 0), rscope = None,
      rupdaters = [\<lparr>iconditions = [CString ''a*''], ihandler = setOne\<rparr>],
      rinstance = False\<rparr>"

definition followerEpic :: "jsval registration" where
  "followerEpic =
     \<lparr>rname = ''e2'', rstate = Some (Num 0), rscope = None,
      rupdaters = [\<lparr>iconditions = [CString ''e1''], ihandler = setOne\<rparr>],
      rinstance = False\<rparr>"

definition patternStore :: "jsval store" where
  "patternStore =
     snd (register exConfig exHost followerEpic
       (snd (register exConfig exHost patternEpic (createStore exHost))))"


section \<open>Properties of the patterns\<close>




lemma syntaxChar_star_dot: "syntaxChar CHR ''*''" "syntaxChar CHR ''.''"
  by (simp_all add: syntaxChar_def)










section \<open>Properties of the registration\<close>

lemma pushUpdater_frame [simp]:
  "epicRegistry (pushUpdater cfg u s a) = epicRegistry s"
  "undoStack (pushUpdater cfg u s a) = undoStack s"
  "redoStack (pushUpdater cfg u s a) = redoStack s"
  by (simp_all add: pushUpdater_def Let_def)

lemma foldl_pushUpdater_frame [simp]:
  "epicRegistry (foldl (pushUpdater cfg u) s v) = epicRegistry s"
  "undoStack (foldl (pushUpdater cfg u) s v) = undoStack s"
  "redoStack (foldl (pushUpdater cfg u) s v) = redoStack s"
  by (induction v arbitrary: s) simp_all

lemma registerVectors_frame:
  "registerVectors cfg name h i vs s = (r, s') \<Longrightarrow>
   epicRegistry s' = epicRegistry s \<and> undoStack s' = undoStack s \<and> redoStack s' = redoStack s"
proof (induction vs arbitrary: s r s')
  case Nil
  then show ?case by simp
next
  case (Cons v vs)
  show ?case
  proof (cases "\<exists>a \<in> set v. \<not> passive (conds s a)")
    case False
    with Cons.prems show ?thesis by simp
  next
    case True
    let ?u = "\<lparr>epic = name, handler = h, conditions = v, index = i\<rparr>"
    let ?s1 = "foldl (pushUpdater cfg ?u) s v"
    obtain r1 s2 where rec: "registerVectors cfg name h i vs ?s1 = (r1, s2)"
      by (cases "registerVectors cfg name h i vs ?s1")
    from Cons.IH [OF rec] have "epicRegistry s2 = epicRegistry s \<and>
      undoStack s2 = undoStack s \<and> redoStack s2 = redoStack s" by simp
    moreover from Cons.prems True rec have "s' = s2"
      by (auto simp: Let_def split: sum.splits)
    ultimately show ?thesis by simp
  qed
qed

lemma registerVectors_error:
  "registerVectors cfg name h i vs s = (Inl e, s') \<Longrightarrow> e = Invariant noPassiveUpdaters"
proof (induction vs arbitrary: s)
  case Nil
  then show ?case by simp
next
  case (Cons v vs)
  then show ?case
    by (auto simp: Let_def split: if_splits prod.splits sum.splits)
qed

lemma processCondition_error:
  "processCondition F c = Inl e \<Longrightarrow>
      e = Invariant invalidConditionType \<or> e = Invariant invalidConditionSelector"
  "processConditions F cs = Inl e \<Longrightarrow>
      e = Invariant invalidConditionType \<or> e = Invariant invalidConditionSelector"
  by (induction F c and F cs rule: processCondition_processConditions.induct)
     (auto split: sum.splits option.splits selectorInput.splits)

lemma registerUpdaters_frame:
  "registerUpdaters cfg F name i us s = (r, s') \<Longrightarrow>
   epicRegistry s' = epicRegistry s \<and> undoStack s' = undoStack s \<and> redoStack s' = redoStack s"
proof (induction us arbitrary: i s r s')
  case Nil
  then show ?case by simp
next
  case (Cons u us)
  show ?case
  proof (cases "processConditions F (iconditions u)")
    case (Inl e)
    with Cons.prems show ?thesis by simp
  next
    case (Inr ps)
    obtain refs h n where al: "allocateAll ps (conds s, condCount s) = (refs, h, n)"
      by (cases "allocateAll ps (conds s, condCount s)")
    let ?s1 = "s\<lparr>conds := h, condCount := n\<rparr>"
    obtain r1 s2 where rv:
      "registerVectors cfg name (ihandler u) i (splitConditions refs) ?s1 = (r1, s2)"
      by (cases "registerVectors cfg name (ihandler u) i (splitConditions refs) ?s1")
    have e2: "epicRegistry s2 = epicRegistry s \<and> undoStack s2 = undoStack s \<and>
        redoStack s2 = redoStack s"
      using registerVectors_frame [OF rv] by simp
    show ?thesis
    proof (cases r1)
      case (Inl e)
      with Cons.prems Inr al rv have "s' = s2" by simp
      with e2 show ?thesis by simp
    next
      case (Inr g)
      obtain r3 s3 where ru: "registerUpdaters cfg F name (Suc i) us s2 = (r3, s3)"
        by (cases "registerUpdaters cfg F name (Suc i) us s2")
      from Cons.IH [OF ru] e2 have "epicRegistry s3 = epicRegistry s \<and>
        undoStack s3 = undoStack s \<and> redoStack s3 = redoStack s" by simp
      moreover from Cons.prems \<open>processConditions F (iconditions u) = Inr ps\<close> al rv Inr ru
      have "s' = s3" by (auto split: sum.splits)
      ultimately show ?thesis by simp
    qed
  qed
qed

lemma registerUpdaters_error:
  "registerUpdaters cfg F name i us s = (Inl e, s') \<Longrightarrow>
   e = Invariant invalidConditionType \<or> e = Invariant invalidConditionSelector \<or>
   e = Invariant noPassiveUpdaters"
proof (induction us arbitrary: i s)
  case Nil
  then show ?case by simp
next
  case (Cons u us)
  then show ?case
    by (auto split: sum.splits prod.splits
        dest: registerVectors_error processCondition_error(2))
qed

text \<open>
  C3, as the code has it. A call of \<^verbatim>\<open>store.register\<close> that throws leaves
  \<open>epicRegistry\<close> as it was, and the error is one of \<open>duplicateEpic\<close>,
  \<open>invalidConditionType\<close>, \<open>invalidConditionSelector\<close> and \<open>noPassiveUpdaters\<close>;
  when it is \<open>duplicateEpic\<close>, nothing at all has changed. (For the other three the
  updaters registered before the failing condition stay in the registries: the
  counterexample below.)
\<close>

theorem register_error:
  assumes "register cfg F r s = (Inl e, s')"
  shows "epicRegistry s' = epicRegistry s \<and>
         (e = Invariant duplicateEpic \<longrightarrow> s' = s) \<and>
         e \<in> {Invariant duplicateEpic, Invariant invalidConditionType,
              Invariant invalidConditionSelector, Invariant noPassiveUpdaters}"
proof (cases "epicRegistry s (rname r) \<noteq> None")
  case True
  with assms show ?thesis by (simp add: register_def)
next
  case False
  obtain r1 s1 where ru: "registerUpdaters cfg F (rname r) 0 (rupdaters r) s = (r1, s1)"
    by (cases "registerUpdaters cfg F (rname r) 0 (rupdaters r) s")
  from assms False ru have r1: "r1 = Inl e" "s1 = s'"
    by (auto simp: register_def split: sum.splits)
  from registerUpdaters_frame [OF ru] r1 have "epicRegistry s' = epicRegistry s" by simp
  moreover from registerUpdaters_error [of cfg F "rname r" 0 "rupdaters r" s e s'] ru r1
  have "e = Invariant invalidConditionType \<or> e = Invariant invalidConditionSelector \<or>
        e = Invariant noPassiveUpdaters" by simp
  ultimately show ?thesis by auto
qed

theorem register_error_witness:
  "fst (register exConfig exHost badSecondReducer (createStore exHost)) =
     Inl (Invariant invalidConditionType) \<and>
   epicRegistry (snd (register exConfig exHost badSecondReducer (createStore exHost))) =
     epicRegistry (createStore exHost)"
proof -
  let ?run = "register exConfig exHost badSecondReducer (createStore exHost)"
  have r: "fst ?run = Inl (Invariant invalidConditionType)"
    by (simp add: register_def badSecondReducer_def createStore_def splitConditions_def
        pushUpdater_def hasStar_def Let_def)
  then have "?run = (Inl (Invariant invalidConditionType), snd ?run)"
    by (metis prod.collapse)
  from register_error [OF this] r show ?thesis by simp
qed

text \<open>
  C3 as stated fails. Registering the Epic \<open>badSecondReducer\<close> throws
  \<open>invalidConditionType\<close> at its second reducer, after the updater of the first one
  has been pushed under the action type \<^verbatim>\<open>a\<close>: \<open>updaterRegistry\<close> is not as it
  was before the call. The change shows: processing the action \<^verbatim>\<open>a\<close>, which did
  nothing before the call, now reaches the updater of an Epic that is not registered
  and throws a TypeError.
\<close>

theorem register_error_counterexample:
  "fst (register exConfig exHost badSecondReducer (createStore exHost)) =
     Inl (Invariant invalidConditionType) \<and>
   updaterRegistry (snd (register exConfig exHost badSecondReducer (createStore exHost))) ''a''
     \<noteq> updaterRegistry (createStore exHost) ''a'' \<and>
   fst (processAction exConfig exHost actionA True (createStore exHost)) = Inr () \<and>
   fst (processAction exConfig exHost actionA True
     (snd (register exConfig exHost badSecondReducer (createStore exHost)))) = Inl TypeError"
  by (simp add: register_def badSecondReducer_def createStore_def splitConditions_def
      pushUpdater_def pushMap_def hasStar_def Let_def processAction_def actionA_def
      processUpdater_def passiveGuard_def conjunctionGuard_def didConditionChange_def
      getSelectorValue_def exConfig_def exHost_def)

section \<open>Properties of the action pump\<close>

lemma sameConditions_refl [simp]: "sameConditions s s"
  by (simp add: sameConditions_def)

lemma sameConditions_trans: "sameConditions s s1 \<Longrightarrow> sameConditions s1 s2 \<Longrightarrow> sameConditions s s2"
  by (simp add: sameConditions_def)

lemma callsExtend_refl [simp]: "callsExtend s s P"
  by (simp add: callsExtend_def)

lemma callsExtend_trans:
  "callsExtend s s1 P \<Longrightarrow> callsExtend s1 s2 P \<Longrightarrow> callsExtend s s2 P"
  by (auto simp: callsExtend_def)

lemma callsExtend_mono:
  "callsExtend s s' P \<Longrightarrow> (\<And>c. P c \<Longrightarrow> Q c) \<Longrightarrow> callsExtend s s' Q"
  by (auto simp: callsExtend_def list_all_iff)

lemma putInstance_fields [simp]:
  "handlerCalls (putInstance name key inst s) = handlerCalls s"
  "conds (putInstance name key inst s) = conds s"
  "patternRegistry (putInstance name key inst s) = patternRegistry s"
  "undoStack (putInstance name key inst s) = undoStack s"
  "redoStack (putInstance name key inst s) = redoStack s"
  by (simp_all add: putInstance_def split: option.splits instanceKey.splits)

lemma instanceBody_run:
  "\<exists>e s'. instanceBody F action ac u fp ik s = (Inl e, s') \<and>
     handlerCalls s' = handlerCalls s @
       [\<lparr>callEpic = epic u, callIndex = index u, callActive = ac, callInstance = snd ik,
         callValues = getHandlerParams F (map (conds s) (conditions u))\<rparr>] \<and>
     conds s' = conds s \<and> patternRegistry s' = patternRegistry s \<and>
     undoStack s' = undoStack s \<and> redoStack s' = redoStack s"
  by (cases ik) (auto simp: instanceBody_def Let_def split: sum.splits)

lemma eachInstance_run:
  "\<exists>r s'. eachInstance F action ac u fp iks s = (r, s') \<and>
     callsExtend s s' (\<lambda>c. callActive c = ac) \<and>
     conds s' = conds s \<and> patternRegistry s' = patternRegistry s \<and>
     undoStack s' = undoStack s \<and> redoStack s' = redoStack s"
proof (cases iks)
  case Nil
  then show ?thesis by simp
next
  case (Cons ik rest)
  then show ?thesis
    using instanceBody_run [of F action ac u fp ik s] by (auto simp: callsExtend_def)
qed

lemma processUpdater_run:
  fixes s :: "'v store"
  shows "\<exists>r s'. processUpdater F action ac u fp s = (r, s') \<and>
     callsExtend s s' (\<lambda>c. callActive c = ac) \<and>
     conds s' = conds s \<and> patternRegistry s' = patternRegistry s \<and>
     undoStack s' = undoStack s \<and> redoStack s' = redoStack s"
proof -
  have each: "\<And>iks (s0 :: 'v store). handlerCalls s0 = handlerCalls s \<Longrightarrow> conds s0 = conds s \<Longrightarrow>
      patternRegistry s0 = patternRegistry s \<Longrightarrow> undoStack s0 = undoStack s \<Longrightarrow>
      redoStack s0 = redoStack s \<Longrightarrow>
      \<exists>r s'. eachInstance F action ac u fp iks s0 = (r, s') \<and>
        callsExtend s s' (\<lambda>c. callActive c = ac) \<and>
        conds s' = conds s \<and> patternRegistry s' = patternRegistry s \<and>
        undoStack s' = undoStack s \<and> redoStack s' = redoStack s"
  proof -
    fix iks and s0 :: "'v store"
    assume a: "handlerCalls s0 = handlerCalls s" "conds s0 = conds s"
      "patternRegistry s0 = patternRegistry s" "undoStack s0 = undoStack s"
      "redoStack s0 = redoStack s"
    from eachInstance_run [of F action ac u fp iks s0] a
    show "\<exists>r s'. eachInstance F action ac u fp iks s0 = (r, s') \<and>
        callsExtend s s' (\<lambda>c. callActive c = ac) \<and>
        conds s' = conds s \<and> patternRegistry s' = patternRegistry s \<and>
        undoStack s' = undoStack s \<and> redoStack s' = redoStack s"
      by (auto simp: callsExtend_def)
  qed
  show ?thesis
    unfolding processUpdater_def
    by (auto simp: Let_def simp del: eachInstance.simps split: option.splits intro!: each)
qed

lemma sameFrame_refl [simp]: "sameFrame s s"
  by (simp add: sameFrame_def)

lemma sameFrame_trans: "sameFrame s s1 \<Longrightarrow> sameFrame s1 s2 \<Longrightarrow> sameFrame s s2"
  by (auto simp: sameFrame_def intro: sameConditions_trans)

lemma sameFrame_conds: "conds s' = conds s \<Longrightarrow> patternRegistry s' = patternRegistry s \<Longrightarrow>
  undoStack s' = undoStack s \<Longrightarrow> redoStack s' = redoStack s \<Longrightarrow> sameFrame s s'"
  by (simp add: sameFrame_def sameConditions_def)

lemma changedFor_sameFrame: "sameFrame s s' \<Longrightarrow> changedFor s' action = changedFor s action"
  by (auto simp: sameFrame_def sameConditions_def changedFor_def fun_eq_iff)

lemma ctype_sameFrame: "sameFrame s s' \<Longrightarrow> ctype (conds s' a) = ctype (conds s a)"
  by (simp add: sameFrame_def sameConditions_def)

lemma processUpdater_frame:
  fixes s :: "'v store"
  obtains r s' where "processUpdater F action ac u fp s = (r, s')"
    "callsExtend s s' (\<lambda>c. callActive c = ac)" "sameFrame s s'"
  using processUpdater_run [of F action ac u fp s] by (auto intro: sameFrame_conds)

lemma directUpdaters_run:
  fixes s :: "'v store"
  shows "\<exists>r s'. directUpdaters F action ext us s = (r, s') \<and>
     callsExtend s s' (\<lambda>c. ext \<or> changedFor s action c) \<and> sameFrame s s'"
proof (induction us arbitrary: s)
  case Nil
  then show ?case by simp
next
  case (Cons u us)
  show ?case
  proof (cases "find (\<lambda>a. type action = ctype (conds s a)) (conditions u)")
    case None
    then show ?thesis by simp
  next
    case (Some ac)
    let ?s1 = "s\<lparr>conds := (conds s)(ac := (conds s ac)
                        \<lparr>value' := Some (getSelectorValue (conds s ac) action)\<rparr>),
                  conditionCache := conditionCache s @ [ac]\<rparr>"
    have f1: "sameFrame s ?s1" by (simp add: sameFrame_def sameConditions_def)
    have h1: "handlerCalls ?s1 = handlerCalls s" by simp
    have ch: "didConditionChange (conds ?s1 ac) =
        (selector (conds s ac) (payload action) (type action) \<noteq> value (conds s ac))"
      by (auto simp: didConditionChange_def getSelectorValue_def)
    show ?thesis
    proof (cases "\<not> ext \<and> \<not> didConditionChange (conds ?s1 ac)")
      case True
      from Cons.IH [of ?s1] obtain r s' where
        run: "directUpdaters F action ext us ?s1 = (r, s')"
        and ce: "callsExtend ?s1 s' (\<lambda>c. ext \<or> changedFor ?s1 action c)"
        and fr: "sameFrame ?s1 s'" by blast
      from ce h1 have "callsExtend s s' (\<lambda>c. ext \<or> changedFor s action c)"
        by (simp add: callsExtend_def changedFor_sameFrame [OF f1])
      moreover from Some True run have "directUpdaters F action ext (u # us) s = (r, s')"
        by (auto simp: Let_def)
      ultimately show ?thesis using sameFrame_trans [OF f1 fr] by blast
    next
      case False
      obtain r2 s2 where pu: "processUpdater F action ac u False ?s1 = (r2, s2)"
        and ce2: "callsExtend ?s1 s2 (\<lambda>c. callActive c = ac)" and fr2: "sameFrame ?s1 s2"
        by (rule processUpdater_frame)
      have acP: "ext \<or> selector (conds s ac) (payload action) (type action) \<noteq> value (conds s ac)"
        using False ch by auto
      from ce2 h1 acP have ce2': "callsExtend s s2 (\<lambda>c. ext \<or> changedFor s action c)"
        by (auto simp: callsExtend_def changedFor_def list_all_iff)
      have fs2: "sameFrame s s2" by (rule sameFrame_trans [OF f1 fr2])
      show ?thesis
      proof (cases r2)
        case (Inl e)
        with Some False pu have "directUpdaters F action ext (u # us) s = (Inl e, s2)"
          by (auto simp: Let_def)
        with ce2' fs2 show ?thesis by blast
      next
        case (Inr x)
        from Cons.IH [of s2] obtain r s' where
          run: "directUpdaters F action ext us s2 = (r, s')"
          and ce: "callsExtend s2 s' (\<lambda>c. ext \<or> changedFor s2 action c)"
          and fr: "sameFrame s2 s'" by blast
        from ce have "callsExtend s2 s' (\<lambda>c. ext \<or> changedFor s action c)"
          by (simp add: changedFor_sameFrame [OF fs2])
        with ce2' have "callsExtend s s' (\<lambda>c. ext \<or> changedFor s action c)"
          by (rule callsExtend_trans)
        moreover from Some False pu Inr run
        have "directUpdaters F action ext (u # us) s = (r, s')"
          by (auto simp: Let_def)
        ultimately show ?thesis using sameFrame_trans [OF fs2 fr] by blast
      qed
    qed
  qed
qed

lemma patternUpdaters_run:
  fixes s :: "'v store"
  shows "\<exists>r s'. patternUpdaters F action key us s = (r, s') \<and>
     callsExtend s s' (\<lambda>c. ctype (conds s (callActive c)) = key) \<and> sameFrame s s'"
proof (induction us arbitrary: s)
  case Nil
  then show ?case by simp
next
  case (Cons u us)
  show ?case
  proof (cases "find (\<lambda>a. key = ctype (conds s a)) (conditions u)")
    case None
    then show ?thesis by simp
  next
    case (Some ac)
    then have key: "ctype (conds s ac) = key" by (auto simp: find_Some_iff)
    let ?s1 = "s\<lparr>conds := (conds s)(ac := (conds s ac)\<lparr>matchedPattern := True\<rparr>),
                  conditionCache := conditionCache s @ [ac]\<rparr>"
    have f1: "sameFrame s ?s1" by (simp add: sameFrame_def sameConditions_def)
    have h1: "handlerCalls ?s1 = handlerCalls s" by simp
    obtain r2 s2 where pu: "processUpdater F action ac u (key = ''*'') ?s1 = (r2, s2)"
      and ce2: "callsExtend ?s1 s2 (\<lambda>c. callActive c = ac)" and fr2: "sameFrame ?s1 s2"
      by (rule processUpdater_frame)
    from ce2 h1 key have ce2': "callsExtend s s2 (\<lambda>c. ctype (conds s (callActive c)) = key)"
      by (auto simp: callsExtend_def list_all_iff)
    have fs2: "sameFrame s s2" by (rule sameFrame_trans [OF f1 fr2])
    show ?thesis
    proof (cases r2)
      case (Inl e)
      with Some pu have "patternUpdaters F action key (u # us) s = (Inl e, s2)"
        by (simp add: Let_def)
      with ce2' fs2 show ?thesis by blast
    next
      case (Inr x)
      from Cons.IH [of s2] obtain r s' where
        run: "patternUpdaters F action key us s2 = (r, s')"
        and ce: "callsExtend s2 s' (\<lambda>c. ctype (conds s2 (callActive c)) = key)"
        and fr: "sameFrame s2 s'" by blast
      from ce have "callsExtend s2 s' (\<lambda>c. ctype (conds s (callActive c)) = key)"
        by (simp add: ctype_sameFrame [OF fs2])
      with ce2' have "callsExtend s s' (\<lambda>c. ctype (conds s (callActive c)) = key)"
        by (rule callsExtend_trans)
      moreover from Some pu Inr run
      have "patternUpdaters F action key (u # us) s = (r, s')"
        by (simp add: Let_def)
      ultimately show ?thesis using sameFrame_trans [OF fs2 fr] by blast
    qed
  qed
qed

lemma patternKeys_run:
  fixes s :: "'v store"
  shows "\<exists>r s'. patternKeys F action reg s = (r, s') \<and>
     callsExtend s s' (\<lambda>c. ctype (conds s (callActive c)) \<in> fst ` set reg) \<and> sameFrame s s'"
proof (induction reg arbitrary: s)
  case Nil
  then show ?case by simp
next
  case (Cons kus reg)
  obtain key us where kus: "kus = (key, us)" by (cases kus)
  show ?case
  proof (cases "getRegexFromPattern (regExpOther F) key")
    case None
    with kus show ?thesis by simp
  next
    case (Some regex)
    show ?thesis
    proof (cases "test regex (type action)")
      case False
      from Cons.IH [of s] obtain r s' where
        run: "patternKeys F action reg s = (r, s')"
        and ce: "callsExtend s s' (\<lambda>c. ctype (conds s (callActive c)) \<in> fst ` set reg)"
        and fr: "sameFrame s s'" by blast
      from ce have "callsExtend s s' (\<lambda>c. ctype (conds s (callActive c)) \<in> fst ` set (kus # reg))"
        by (rule callsExtend_mono) auto
      with run fr kus Some False show ?thesis by simp
    next
      case True
      from patternUpdaters_run [of F action key us s] obtain r2 s2 where
        pu: "patternUpdaters F action key us s = (r2, s2)"
        and ce2: "callsExtend s s2 (\<lambda>c. ctype (conds s (callActive c)) = key)"
        and fs2: "sameFrame s s2" by blast
      from ce2 kus have ce2': "callsExtend s s2 (\<lambda>c. ctype (conds s (callActive c)) \<in> fst ` set (kus # reg))"
        by (auto elim: callsExtend_mono)
      show ?thesis
      proof (cases r2)
        case (Inl e)
        with kus Some True pu have "patternKeys F action (kus # reg) s = (Inl e, s2)" by simp
        with ce2' fs2 show ?thesis by blast
      next
        case (Inr x)
        from Cons.IH [of s2] obtain r s' where
          run: "patternKeys F action reg s2 = (r, s')"
          and ce: "callsExtend s2 s' (\<lambda>c. ctype (conds s2 (callActive c)) \<in> fst ` set reg)"
          and fr: "sameFrame s2 s'" by blast
        from ce have "callsExtend s2 s' (\<lambda>c. ctype (conds s (callActive c)) \<in> fst ` set reg)"
          by (simp add: ctype_sameFrame [OF fs2])
        then have "callsExtend s2 s' (\<lambda>c. ctype (conds s (callActive c)) \<in> fst ` set (kus # reg))"
          by (rule callsExtend_mono) auto
        with ce2' have "callsExtend s s' (\<lambda>c. ctype (conds s (callActive c)) \<in> fst ` set (kus # reg))"
          by (rule callsExtend_trans)
        moreover from kus Some True pu Inr run
        have "patternKeys F action (kus # reg) s = (r, s')" by simp
        ultimately show ?thesis using sameFrame_trans [OF fs2 fr] by blast
      qed
    qed
  qed
qed

lemma processAction_run:
  fixes s :: "'v store"
  shows "\<exists>r s'. processAction cfg F action ext s = (r, s') \<and>
     callsExtend s s' (\<lambda>c. ext \<or> changedFor s action c \<or>
        (patterns cfg \<and> ctype (conds s (callActive c)) \<in> fst ` set (patternRegistry s))) \<and>
     sameFrame s s'"
proof -
  let ?P = "\<lambda>c. ext \<or> changedFor s action c \<or>
        (patterns cfg \<and> ctype (conds s (callActive c)) \<in> fst ` set (patternRegistry s))"
  let ?s1 = "s\<lparr>actionCache := (actionCache s)(type action \<mapsto> payload action)\<rparr>"
  let ?us = "case updaterRegistry ?s1 (type action) of None \<Rightarrow> [] | Some us \<Rightarrow> us"
  have f1: "sameFrame s ?s1" by (simp add: sameFrame_def sameConditions_def)
  have h1: "handlerCalls ?s1 = handlerCalls s" by simp
  from directUpdaters_run [of F action ext ?us ?s1] obtain r2 s2 where
    du: "directUpdaters F action ext ?us ?s1 = (r2, s2)"
    and ce2: "callsExtend ?s1 s2 (\<lambda>c. ext \<or> changedFor ?s1 action c)"
    and fr2: "sameFrame ?s1 s2" by blast
  have fs2: "sameFrame s s2" by (rule sameFrame_trans [OF f1 fr2])
  from ce2 h1 have "callsExtend s s2 (\<lambda>c. ext \<or> changedFor s action c)"
    by (simp add: callsExtend_def changedFor_sameFrame [OF f1])
  then have ce2': "callsExtend s s2 ?P" by (rule callsExtend_mono) auto
  from patternKeys_run [of F action "patternRegistry s2" s2] obtain r3 s3 where
    pk: "patternKeys F action (patternRegistry s2) s2 = (r3, s3)"
    and ce3: "callsExtend s2 s3 (\<lambda>c. ctype (conds s2 (callActive c)) \<in> fst ` set (patternRegistry s2))"
    and fr3: "sameFrame s2 s3" by blast
  have pr: "patternRegistry s2 = patternRegistry s" using fs2 by (simp add: sameFrame_def)
  from ce3 have ce3': "patterns cfg \<Longrightarrow> callsExtend s2 s3 ?P"
    by (rule callsExtend_mono) (simp add: ctype_sameFrame [OF fs2] pr)
  have fs3: "sameFrame s s3" by (rule sameFrame_trans [OF fs2 fr3])
  show ?thesis
  proof (cases "(ext \<and> epicRegistry s (type action) \<noteq> None) \<or>
                (ext \<and> actionCache s (type action) \<noteq> None)")
    case True
    then show ?thesis by (auto simp: processAction_def)
  next
    case False
    show ?thesis
    proof (cases r2)
      case (Inl e)
      with False du have "processAction cfg F action ext s = (Inl e, s2)"
        by (auto simp: processAction_def Let_def)
      with ce2' fs2 show ?thesis by blast
    next
      case (Inr x)
      show ?thesis
      proof (cases "patterns cfg")
        case True
        with False du Inr pk have "processAction cfg F action ext s = (r3, s3)"
          by (auto simp: processAction_def Let_def)
        moreover have "callsExtend s s3 ?P"
          using ce2' ce3' [OF True] by (rule callsExtend_trans)
        ultimately show ?thesis using fs3 by blast
      next
        case nop: False
        with False du Inr have "processAction cfg F action ext s = (Inr (), s2)"
          by (auto simp: processAction_def Let_def)
        with ce2' fs2 show ?thesis by blast
      qed
    qed
  qed
qed

lemma eachInstance_Cons:
  "\<exists>e s'. eachInstance F action ac u fp (ik # rest) s = (Inl e, s') \<and>
     handlerCalls s' = handlerCalls s @
       [\<lparr>callEpic = epic u, callIndex = index u, callActive = ac, callInstance = snd ik,
         callValues = getHandlerParams F (map (conds s) (conditions u))\<rparr>]"
  using instanceBody_run [of F action ac u fp ik s] by auto

lemma processUpdater_blocked:
  "passiveGuard s C u \<or> conjunctionGuard s C u \<Longrightarrow>
   processUpdater F action C u fp s = (Inr (), s)"
  by (auto simp: processUpdater_def)

lemma processUpdater_fires:
  assumes "\<not> passiveGuard s C u" "\<not> conjunctionGuard s C u" "instanceSelected s action u"
  shows "\<exists>e s' k. processUpdater F action C u fp s = (Inl e, s') \<and>
     handlerCalls s' = handlerCalls s @
       [\<lparr>callEpic = epic u, callIndex = index u, callActive = C, callInstance = k,
         callValues = getHandlerParams F (map (conds s) (conditions u))\<rparr>]"
proof -
  from assms(3) obtain e where e: "epicRegistry s (epic u) = Some e"
    and sel: "instances e = None \<or> targetOf action \<noteq> None \<or> instances e \<noteq> Some []"
    by (auto simp: instanceSelected_def split: option.splits)
  show ?thesis
  proof (cases "instances e")
    case None
    with assms e show ?thesis
      using eachInstance_Cons [of F action C u fp "(self e, defaultEpicInstanceKey)" "[]" s]
      by (auto simp: processUpdater_def)
  next
    case (Some insts)
    show ?thesis
    proof (cases "targetOf action")
      case None
      with sel Some obtain ki rest where insts: "insts = ki # rest" by (cases insts) auto
      obtain k i where ki: "ki = (k, i)" by (cases ki)
      from assms e Some None insts ki show ?thesis
        using eachInstance_Cons [of F action C u fp "(i, Id k)" "map (\<lambda>(k, inst). (inst, Id k)) rest" s]
        by (auto simp: processUpdater_def)
    next
      case (Some t)
      show ?thesis
      proof (cases "map_of insts t")
        case None
        let ?inst = "\<lparr>state = freeze F (unfreeze F (state (self e))),
                        scope = freeze F (unfreeze F (scope (self e))),
                        state' = None, scope' = None\<rparr>"
        from assms e \<open>instances e = Some insts\<close> Some None show ?thesis
          using eachInstance_Cons [of F action C u fp "(?inst, Id t)" "[]" "putInstance (epic u) (Id t) ?inst s"]
          by (auto simp: processUpdater_def Let_def)
      next
        case (Some inst)
        from assms e \<open>instances e = Some insts\<close> \<open>targetOf action = Some t\<close> Some show ?thesis
          using eachInstance_Cons [of F action C u fp "(inst, Id t)" "[]" s]
          by (auto simp: processUpdater_def)
      qed
    qed
  qed
qed

text \<open>
  C7, as the code has it, for an updater \<open>u\<close> evaluated with the triggering condition
  \<open>C\<close>. If \<open>C\<close> is passive and no condition of \<open>u\<close> that is not passive has
  \<^verbatim>\<open>matchedPattern\<close> set or a staged value that differs from its committed one, the
  handler is not called. If the handler is called, every condition of \<open>u\<close> other than
  \<open>C\<close> is passive, or not required, or has \<^verbatim>\<open>matchedPattern\<close> set or has changed.
  When both guards pass and the selection of instances is not empty, the handler is
  called, for the updater, with \<open>C\<close> as the triggering condition and the values of the
  conditions of \<open>u\<close>.
\<close>

theorem processUpdater_guards:
  assumes "processUpdater F action C u fp s = (r, s')"
  shows
    "(passive (conds s C) \<and>
      \<not> (\<exists>k \<in> set (conditions u). \<not> passive (conds s k) \<and>
            (matchedPattern (conds s k) \<or> didConditionChange (conds s k)))
      \<longrightarrow> handlerCalls s' = handlerCalls s) \<and>
     (handlerCalls s' \<noteq> handlerCalls s \<longrightarrow>
        (\<forall>k \<in> set (conditions u). k \<noteq> C \<longrightarrow>
           passive (conds s k) \<or> \<not> required (conds s k) \<or>
           matchedPattern (conds s k) \<or> didConditionChange (conds s k))) \<and>
     (\<not> passiveGuard s C u \<and> \<not> conjunctionGuard s C u \<and> instanceSelected s action u \<longrightarrow>
        (\<exists>c rest. handlerCalls s' = handlerCalls s @ c # rest \<and>
           callEpic c = epic u \<and> callIndex c = index u \<and> callActive c = C \<and>
           callValues c = getHandlerParams F (map (conds s) (conditions u))))"
proof (intro conjI impI)
  assume "passive (conds s C) \<and>
      \<not> (\<exists>k \<in> set (conditions u). \<not> passive (conds s k) \<and>
            (matchedPattern (conds s k) \<or> didConditionChange (conds s k)))"
  then have "passiveGuard s C u" by (simp add: passiveGuard_def)
  with assms processUpdater_blocked [of s C u F action fp] show "handlerCalls s' = handlerCalls s"
    by simp
next
  assume ch: "handlerCalls s' \<noteq> handlerCalls s"
  have "\<not> conjunctionGuard s C u"
  proof
    assume "conjunctionGuard s C u"
    with assms processUpdater_blocked [of s C u F action fp] have "s' = s" by simp
    with ch show False by simp
  qed
  then show "\<forall>k \<in> set (conditions u). k \<noteq> C \<longrightarrow>
           passive (conds s k) \<or> \<not> required (conds s k) \<or>
           matchedPattern (conds s k) \<or> didConditionChange (conds s k)"
    by (auto simp: conjunctionGuard_def)
next
  assume "\<not> passiveGuard s C u \<and> \<not> conjunctionGuard s C u \<and> instanceSelected s action u"
  then obtain e s2 k where "processUpdater F action C u fp s = (Inl e, s2)"
    and "handlerCalls s2 = handlerCalls s @
       [\<lparr>callEpic = epic u, callIndex = index u, callActive = C, callInstance = k,
         callValues = getHandlerParams F (map (conds s) (conditions u))\<rparr>]"
    using processUpdater_fires [of s C u action F fp] by blast
  with assms show "\<exists>c rest. handlerCalls s' = handlerCalls s @ c # rest \<and>
           callEpic c = epic u \<and> callIndex c = index u \<and> callActive c = C \<and>
           callValues c = getHandlerParams F (map (conds s) (conditions u))"
    by auto
qed

lemma singletonStore_fields:
  "epicRegistry singletonStore ''e'' =
     Some \<lparr>self = \<lparr>state = Num 0, scope = Initial, state' = None, scope' = None\<rparr>,
           updaters = [[firstUpdater]], instances = None\<rparr>"
  "updaterRegistry singletonStore ''a'' = Some [firstUpdater]"
  "patternRegistry singletonStore = []"
  "conds singletonStore 0 =
     \<lparr>ctype = ''a'', selector = (\<lambda>state _. state), value = Initial, passive = False,
      required = False, cid = None, ctarget = None, value' = None, matchedPattern = False\<rparr>"
  "handlerCalls singletonStore = []"
  by (simp_all add: singletonStore_def register_def singletonEpic_def createStore_def
      splitConditions_def pushUpdater_def pushMap_def hasStar_def Let_def exHost_def
      exConfig_def firstUpdater_def)

lemma instancedStore_fields:
  "epicRegistry instancedStore ''e'' =
     Some \<lparr>self = \<lparr>state = Num 0, scope = Initial, state' = None, scope' = None\<rparr>,
           updaters = [[firstUpdater]], instances = Some []\<rparr>"
  "updaterRegistry instancedStore ''a'' = Some [firstUpdater]"
  "patternRegistry instancedStore = []"
  "conds instancedStore 0 =
     \<lparr>ctype = ''a'', selector = (\<lambda>state _. state), value = Initial, passive = False,
      required = False, cid = None, ctarget = None, value' = None, matchedPattern = False\<rparr>"
  "handlerCalls instancedStore = []"
  by (simp_all add: instancedStore_def register_def instancedEpic_def singletonEpic_def
      createStore_def splitConditions_def pushUpdater_def pushMap_def hasStar_def Let_def
      exHost_def exConfig_def firstUpdater_def)

theorem processUpdater_guards_witness:
  "\<not> passiveGuard singletonStore 0 firstUpdater \<and>
   \<not> conjunctionGuard singletonStore 0 firstUpdater \<and>
   instanceSelected singletonStore actionA firstUpdater \<and>
   handlerCalls (snd (processUpdater exHost actionA 0 firstUpdater False singletonStore))
     \<noteq> handlerCalls singletonStore"
proof -
  let ?run = "processUpdater exHost actionA 0 firstUpdater False singletonStore"
  have g: "\<not> passiveGuard singletonStore 0 firstUpdater"
    "\<not> conjunctionGuard singletonStore 0 firstUpdater"
    "instanceSelected singletonStore actionA firstUpdater"
    by (simp_all add: passiveGuard_def conjunctionGuard_def instanceSelected_def
        singletonStore_fields firstUpdater_def)
  have "?run = (fst ?run, snd ?run)" by simp
  from processUpdater_guards [OF this] g
  show ?thesis by auto
qed

text \<open>
  C7 as stated fails in its last part: both guards pass and the handler is not called.
  The Epic \<^verbatim>\<open>e\<close> is registered with instances and has none yet; the action
  \<^verbatim>\<open>{type: 'a'}\<close> has no target, so the handler is to be called once for each
  existing instance, that is, not at all.
\<close>

theorem processUpdater_guards_counterexample:
  "updaterRegistry instancedStore ''a'' = Some [firstUpdater] \<and>
   \<not> passiveGuard instancedStore 0 firstUpdater \<and>
   \<not> conjunctionGuard instancedStore 0 firstUpdater \<and>
   processUpdater exHost actionA 0 firstUpdater False instancedStore
     = (Inr (), instancedStore) \<and>
   handlerCalls instancedStore = []"
  by (simp add: passiveGuard_def conjunctionGuard_def processUpdater_def
      instancedStore_fields firstUpdater_def targetOf_def actionA_def)



section \<open>Properties of the cycle and of undo and redo\<close>

lemma updatedEpics_state: "snd (updatedEpics cfg F cache s) = s"
  by (induction cache) (auto split: sum.splits)

lemma processEpicListeners_throws:
  "\<exists>e. processEpicListeners cfg F cache a s = (Inl e, s)"
proof -
  obtain r s' where u: "updatedEpics cfg F cache s = (r, s')"
    by (cases "updatedEpics cfg F cache s")
  with updatedEpics_state [of cfg F cache s] have "s' = s" by simp
  with u show ?thesis by (cases r) (auto simp: processEpicListeners_def)
qed







lemma pushListener_stacks [simp]:
  "undoStack (pushListener cfg l s r) = undoStack s"
  "redoStack (pushListener cfg l s r) = redoStack s"
  by (simp_all add: pushListener_def split: prod.splits)

lemma foldl_pushListener_stacks [simp]:
  "undoStack (foldl (pushListener cfg l) s rs) = undoStack s"
  "redoStack (foldl (pushListener cfg l) s rs) = redoStack s"
  by (induction rs arbitrary: s) simp_all





lemma putInstance_canonical_Id [simp]:
  "canonical (putInstance name (Id k) inst s) = canonical s"
  by (simp add: canonical_def putInstance_def fun_eq_iff split: option.splits)

lemma putInstance_canonical_default:
  "epicRegistry s name = Some e \<Longrightarrow> state inst = state (self e) \<Longrightarrow>
   scope inst = scope (self e) \<Longrightarrow>
   canonical (putInstance name defaultEpicInstanceKey inst s) = canonical s"
  by (simp add: canonical_def putInstance_def fun_eq_iff)

lemma canonical_cong:
  "epicRegistry s' = epicRegistry s \<Longrightarrow> canonical s' = canonical s"
  by (simp add: canonical_def fun_eq_iff)

lemma instanceBody_canonical:
  fixes s :: "'v store"
  assumes "key = defaultEpicInstanceKey \<longrightarrow>
     (\<exists>e. epicRegistry s (epic u) = Some e \<and> state inst = state (self e) \<and>
          scope inst = scope (self e))"
  shows "canonical (snd (instanceBody F action ac u fp (inst, key) s)) = canonical s"
proof -
  let ?inst' = "inst\<lparr>state' := Some (case state' inst of Some x \<Rightarrow> x | None \<Rightarrow> state inst),
                      scope' := Some (case scope' inst of Some x \<Rightarrow> x | None \<Rightarrow> scope inst)\<rparr>"
  have "canonical (putInstance (epic u) key ?inst' s) = canonical s"
  proof (cases key)
    case defaultEpicInstanceKey
    with assms obtain e where e: "epicRegistry s (epic u) = Some e"
      "state inst = state (self e)" "scope inst = scope (self e)" by blast
    have "canonical (putInstance (epic u) defaultEpicInstanceKey ?inst' s) = canonical s"
      by (rule putInstance_canonical_default [OF e(1)]) (simp_all add: e)
    then show ?thesis using defaultEpicInstanceKey by simp
  next
    case (Id k)
    then show ?thesis by simp
  qed
  moreover have "epicRegistry (snd (instanceBody F action ac u fp (inst, key) s)) =
      epicRegistry (putInstance (epic u) key ?inst' s)"
    by (simp add: instanceBody_def Let_def split: sum.splits)
  then have "canonical (snd (instanceBody F action ac u fp (inst, key) s)) =
      canonical (putInstance (epic u) key ?inst' s)"
    by (rule canonical_cong)
  ultimately show ?thesis by simp
qed

lemma eachInstance_single:
  "snd (eachInstance F action ac u fp (ik # rest) s) = snd (instanceBody F action ac u fp ik s)"
  using instanceBody_run [of F action ac u fp ik s] by auto

lemma processUpdater_canonical:
  fixes s :: "'v store"
  shows "canonical (snd (processUpdater F action ac u fp s)) = canonical s"
proof (cases "passiveGuard s ac u \<or> conjunctionGuard s ac u")
  case True
  then show ?thesis by (auto simp: processUpdater_def)
next
  case False
  show ?thesis
  proof (cases "epicRegistry s (epic u)")
    case None
    with False show ?thesis by (simp add: processUpdater_def)
  next
    case (Some e)
    show ?thesis
    proof (cases "instances e")
      case None
      have "canonical (snd (instanceBody F action ac u fp (self e, defaultEpicInstanceKey) s))
          = canonical s"
        by (rule instanceBody_canonical) (simp add: Some)
      with False Some None show ?thesis
        by (simp add: processUpdater_def eachInstance_single del: eachInstance.simps)
    next
      case insts: (Some insts)
      show ?thesis
      proof (cases "targetOf action")
        case None
        show ?thesis
        proof (cases insts)
          case Nil
          with False Some insts None show ?thesis by (simp add: processUpdater_def)
        next
          case (Cons ki rest)
          obtain k i where ki: "ki = (k, i)" by (cases ki)
          have "canonical (snd (instanceBody F action ac u fp (i, Id k) s)) = canonical s"
            by (rule instanceBody_canonical) simp
          with False Some insts None Cons ki show ?thesis
            by (simp add: processUpdater_def eachInstance_single del: eachInstance.simps)
        qed
      next
        case t: (Some t)
        show ?thesis
        proof (cases "map_of insts t")
          case None
          let ?inst = "\<lparr>state = freeze F (unfreeze F (state (self e))),
                          scope = freeze F (unfreeze F (scope (self e))),
                          state' = None, scope' = None\<rparr>"
          have "canonical (snd (instanceBody F action ac u fp (?inst, Id t)
                  (putInstance (epic u) (Id t) ?inst s)))
              = canonical (putInstance (epic u) (Id t) ?inst s)"
            by (rule instanceBody_canonical) simp
          with False Some insts t None show ?thesis
            by (simp add: processUpdater_def Let_def eachInstance_single del: eachInstance.simps)
        next
          case inst: (Some inst)
          have "canonical (snd (instanceBody F action ac u fp (inst, Id t) s)) = canonical s"
            by (rule instanceBody_canonical) simp
          with False Some insts t inst show ?thesis
            by (simp add: processUpdater_def eachInstance_single del: eachInstance.simps)
        qed
      qed
    qed
  qed
qed

lemma processUpdater_canonical':
  fixes s :: "'v store"
  shows "processUpdater F action ac u fp s = (r, s') \<Longrightarrow> canonical s' = canonical s"
  using processUpdater_canonical [of F action ac u fp s] by simp

lemma directUpdaters_canonical:
  fixes s :: "'v store"
  shows "canonical (snd (directUpdaters F action ext us s)) = canonical s"
proof (induction us arbitrary: s)
  case Nil
  then show ?case by simp
next
  case (Cons u us)
  show ?case
  proof (cases "find (\<lambda>a. type action = ctype (conds s a)) (conditions u)")
    case None
    then show ?thesis by simp
  next
    case (Some ac)
    let ?s1 = "s\<lparr>conds := (conds s)(ac := (conds s ac)
                        \<lparr>value' := Some (getSelectorValue (conds s ac) action)\<rparr>),
                  conditionCache := conditionCache s @ [ac]\<rparr>"
    have c1: "canonical ?s1 = canonical s" by (rule canonical_cong) simp
    show ?thesis
    proof (cases "\<not> ext \<and> \<not> didConditionChange (conds ?s1 ac)")
      case True
      with Some have "directUpdaters F action ext (u # us) s = directUpdaters F action ext us ?s1"
        by (auto simp: Let_def)
      with Cons.IH [of ?s1] c1 show ?thesis by simp
    next
      case False
      obtain r2 s2 where pu: "processUpdater F action ac u False ?s1 = (r2, s2)"
        by (cases "processUpdater F action ac u False ?s1")
      from processUpdater_canonical' [OF pu] c1 have c2: "canonical s2 = canonical s" by simp
      show ?thesis
      proof (cases r2)
        case (Inl e)
        with Some False pu have "directUpdaters F action ext (u # us) s = (Inl e, s2)"
          by (auto simp: Let_def)
        with c2 show ?thesis by simp
      next
        case (Inr x)
        with Some False pu have "directUpdaters F action ext (u # us) s =
            directUpdaters F action ext us s2"
          by (auto simp: Let_def)
        with Cons.IH [of s2] c2 show ?thesis by simp
      qed
    qed
  qed
qed

lemma patternUpdaters_canonical:
  fixes s :: "'v store"
  shows "canonical (snd (patternUpdaters F action key us s)) = canonical s"
proof (induction us arbitrary: s)
  case Nil
  then show ?case by simp
next
  case (Cons u us)
  show ?case
  proof (cases "find (\<lambda>a. key = ctype (conds s a)) (conditions u)")
    case None
    then show ?thesis by simp
  next
    case (Some ac)
    let ?s1 = "s\<lparr>conds := (conds s)(ac := (conds s ac)\<lparr>matchedPattern := True\<rparr>),
                  conditionCache := conditionCache s @ [ac]\<rparr>"
    have c1: "canonical ?s1 = canonical s" by (rule canonical_cong) simp
    obtain r2 s2 where pu: "processUpdater F action ac u (key = ''*'') ?s1 = (r2, s2)"
      by (cases "processUpdater F action ac u (key = ''*'') ?s1")
    from processUpdater_canonical' [OF pu] c1 have c2: "canonical s2 = canonical s" by simp
    show ?thesis
    proof (cases r2)
      case (Inl e)
      with Some pu have "patternUpdaters F action key (u # us) s = (Inl e, s2)"
        by (simp add: Let_def)
      with c2 show ?thesis by simp
    next
      case (Inr x)
      with Some pu have "patternUpdaters F action key (u # us) s =
          patternUpdaters F action key us s2"
        by (simp add: Let_def)
      with Cons.IH [of s2] c2 show ?thesis by simp
    qed
  qed
qed

lemma patternKeys_canonical:
  fixes s :: "'v store"
  shows "canonical (snd (patternKeys F action reg s)) = canonical s"
proof (induction reg arbitrary: s)
  case Nil
  then show ?case by simp
next
  case (Cons kus reg)
  obtain key us where kus: "kus = (key, us)" by (cases kus)
  show ?case
  proof (cases "getRegexFromPattern (regExpOther F) key")
    case None
    with kus show ?thesis by simp
  next
    case (Some regex)
    show ?thesis
    proof (cases "test regex (type action)")
      case False
      with kus Some Cons.IH [of s] show ?thesis by simp
    next
      case True
      obtain r2 s2 where pu: "patternUpdaters F action key us s = (r2, s2)"
        by (cases "patternUpdaters F action key us s")
      with patternUpdaters_canonical [of F action key us s]
      have c2: "canonical s2 = canonical s" by simp
      show ?thesis
      proof (cases r2)
        case (Inl e)
        with kus Some True pu c2 show ?thesis by simp
      next
        case (Inr x)
        with kus Some True pu c2 Cons.IH [of s2] show ?thesis by simp
      qed
    qed
  qed
qed

lemma processAction_canonical:
  fixes s :: "'v store"
  shows "canonical (snd (processAction cfg F action ext s)) = canonical s"
proof -
  let ?s1 = "s\<lparr>actionCache := (actionCache s)(type action \<mapsto> payload action)\<rparr>"
  let ?us = "case updaterRegistry ?s1 (type action) of None \<Rightarrow> [] | Some us \<Rightarrow> us"
  have c1: "canonical ?s1 = canonical s" by (rule canonical_cong) simp
  obtain r2 s2 where du: "directUpdaters F action ext ?us ?s1 = (r2, s2)"
    by (cases "directUpdaters F action ext ?us ?s1")
  with directUpdaters_canonical [of F action ext ?us ?s1] c1
  have c2: "canonical s2 = canonical s" by simp
  from patternKeys_canonical [of F action "patternRegistry s2" s2] c2
  have c3: "canonical (snd (patternKeys F action (patternRegistry s2) s2)) = canonical s"
    by simp
  show ?thesis
  proof (cases "(ext \<and> epicRegistry s (type action) \<noteq> None) \<or>
                (ext \<and> actionCache s (type action) \<noteq> None)")
    case True
    then show ?thesis by (auto simp: processAction_def)
  next
    case False
    show ?thesis
    proof (cases r2)
      case (Inl e)
      with False du c2 show ?thesis by (auto simp: processAction_def Let_def)
    next
      case (Inr x)
      with False du c2 c3 show ?thesis by (auto simp: processAction_def Let_def)
    qed
  qed
qed

lemma processAction_values:
  fixes s :: "'v store"
  shows "value (conds (snd (processAction cfg F action ext s)) c) = value (conds s c)"
  using processAction_run [of cfg F action ext s]
  by (auto simp: sameFrame_def sameConditions_def)

text \<open>
  No call of \<^verbatim>\<open>dispatch\<close> commits anything: the state and the scope of every Epic
  and the committed value of every condition are after the call what they were before.
\<close>

lemma dispatch_commits_nothing:
  fixes s :: "'v store"
  shows "canonical (snd (dispatch strict cfg F a s)) = canonical s \<and>
         value (conds (snd (dispatch strict cfg F a s)) c) = value (conds s c)"
proof -
  let ?action = "validateAction F a"
  let ?s1 = "s\<lparr>inCycle := True, undoEntry := [], epicCache := [], actionCache := Map.empty,
                  conditionCache := [], sourceAction := Some ?action\<rparr>"
  obtain r s2 where pa: "processAction cfg F ?action True ?s1 = (r, s2)"
    by (cases "processAction cfg F ?action True ?s1")
  have "canonical ?s1 = canonical s" by (rule canonical_cong) simp
  with processAction_canonical [of cfg F ?action True ?s1] pa
  have c2: "canonical s2 = canonical s" by simp
  from processAction_values [of cfg F ?action True ?s1 c] pa
  have v2: "value (conds s2 c) = value (conds s c)" by simp
  let ?s3 = "s2\<lparr>inCycle := False, afterCycle := True\<rparr>"
  obtain e where pl: "processEpicListeners cfg F (epicCache ?s3) ?action ?s3 = (Inl e, ?s3)"
    using processEpicListeners_throws [of cfg F "epicCache ?s3" ?action ?s3] by blast
  have "canonical ?s3 = canonical s2" by (rule canonical_cong) simp
  with c2 have c3: "canonical ?s3 = canonical s" by simp
  show ?thesis
  proof (cases "inCycle s")
    case True
    then show ?thesis
      using processAction_canonical [of cfg F ?action True s]
        processAction_values [of cfg F ?action True s c]
      by (simp add: dispatch_def Let_def)
  next
    case False
    have "canonical ?s1 = canonical s" by (rule canonical_cong) simp
    with False show ?thesis using pa pl c3 v2
      by (simp add: dispatch_def Let_def)
  qed
qed

text \<open>
  A call of \<^verbatim>\<open>dispatch\<close> outside of a cycle, and every call of \<^verbatim>\<open>undo\<close> and
  \<^verbatim>\<open>redo\<close>, ends with an exception.
\<close>

lemma dispatch_fresh_throws:
  fixes s :: "'v store"
  assumes "\<not> inCycle s"
  shows "\<exists>e. fst (dispatch strict cfg F a s) = Inl e"
proof -
  let ?action = "validateAction F a"
  let ?s1 = "s\<lparr>inCycle := True, undoEntry := [], epicCache := [], actionCache := Map.empty,
                  conditionCache := [], sourceAction := Some ?action\<rparr>"
  obtain r s2 where pa: "processAction cfg F ?action True ?s1 = (r, s2)"
    by (cases "processAction cfg F ?action True ?s1")
  let ?s3 = "s2\<lparr>inCycle := False, afterCycle := True\<rparr>"
  obtain e where pl: "processEpicListeners cfg F (epicCache ?s3) ?action ?s3 = (Inl e, ?s3)"
    using processEpicListeners_throws [of cfg F "epicCache ?s3" ?action ?s3] by blast
  from assms pa pl show ?thesis by (simp add: dispatch_def Let_def)
qed

lemma undoRedo_throws:
  fixes s :: "'v store"
  shows "\<exists>e. fst (undoRedo key cfg F s) = Inl e"
proof (cases "undo cfg")
  case False
  then show ?thesis by (simp add: undoRedo_def)
next
  case True
  obtain r s1 where hc: "handleChange key s = (r, s1)" by (cases "handleChange key s")
  show ?thesis
  proof (cases r)
    case (Inl e)
    with True hc show ?thesis by (simp add: undoRedo_def)
  next
    case (Inr cache)
    let ?a = "\<lparr>type = (case key of Undo \<Rightarrow> ''STORE_UNDO'' | Redo \<Rightarrow> ''STORE_REDO''),
                      payload = undefinedValue F, target = None\<rparr>"
    obtain e where "processEpicListeners cfg F cache ?a s1 = (Inl e, s1)"
      using processEpicListeners_throws [of cfg F cache ?a s1] by blast
    with True hc Inr show ?thesis by (simp add: undoRedo_def)
  qed
qed



lemmas ex_defs = register_def createStore_def splitConditions_def pushUpdater_def pushMap_def
  hasStar_def Let_def exHost_def exConfig_def conditionOn_def

lemmas run_defs = dispatch_def validateAction_def processAction_def processUpdater_def
  passiveGuard_def conjunctionGuard_def instanceBody_def putInstance_def
  didConditionChange_def getSelectorValue_def getHandlerParams_def processEpicListeners_def
  targetOf_def errorTruthy_def


text \<open>
  C1, a run of the code. The store holds the Epic \<^verbatim>\<open>e\<close> with one reducer on the
  action \<^verbatim>\<open>a\<close> and the required condition \<^verbatim>\<open>b\<close>; the action
  \<^verbatim>\<open>{type: 'a', payload: 7}\<close> is dispatched. In a module (strict code) the fresh
  cycle throws a ReferenceError before the action is processed. Run as sloppy code, the
  action is processed without an error (the reducer does not fire, the value 7 is
  staged for the condition \<^verbatim>\<open>a\<close>), and \<^verbatim>\<open>dispatch\<close> throws a ReferenceError out
  of \<^verbatim>\<open>processEpicListeners\<close>: the staged value is not promoted, the condition keeps
  its committed value and its staged one, and \<^verbatim>\<open>afterCycle\<close> stays set. With the
  Epic \<^verbatim>\<open>e\<close> whose reducer on \<^verbatim>\<open>a\<close> returns the state 1, the handler is called,
  \<^verbatim>\<open>dispatch('a')\<close> throws a ReferenceError, and the state of the Epic is 0 as
  before.
\<close>

theorem dispatch_promotes_nothing:
  "fst (dispatch True exConfig exHost actionA7 requiredStore) = Inl ReferenceError \<and>
   handlerCalls (snd (dispatch True exConfig exHost actionA7 requiredStore)) = [] \<and>
   fst (processAction exConfig exHost (validateAction exHost actionA7) True
      (requiredStore\<lparr>inCycle := True,
         sourceAction := Some (validateAction exHost actionA7)\<rparr>)) = Inr () \<and>
   fst (dispatch False exConfig exHost actionA7 requiredStore) = Inl ReferenceError \<and>
   conditionCache (snd (dispatch False exConfig exHost actionA7 requiredStore)) = [0] \<and>
   value' (conds (snd (dispatch False exConfig exHost actionA7 requiredStore)) 0)
     = Some (Num 7) \<and>
   value (conds (snd (dispatch False exConfig exHost actionA7 requiredStore)) 0) = Initial \<and>
   afterCycle (snd (dispatch False exConfig exHost actionA7 requiredStore)) \<and>
   fst (dispatch False exConfig exHost (AString ''a'') singletonStore) = Inl ReferenceError \<and>
   map callEpic (handlerCalls (snd (dispatch False exConfig exHost (AString ''a'') singletonStore)))
     = [''e''] \<and>
   canonical (snd (dispatch False exConfig exHost (AString ''a'') singletonStore)) ''e''
     = Some (Num 0, Initial)"
  by (simp add: requiredStore_def requiredEpic_def actionA7_def singletonStore_def
      singletonEpic_def setOne_def canonical_def ex_defs run_defs)

text \<open>
  C2, a run of the code. The store holds the Epic \<^verbatim>\<open>e\<close> with the state 0 and a
  reducer on \<^verbatim>\<open>a\<close> whose handler throws; \<^verbatim>\<open>a\<close> is dispatched. Run as sloppy code,
  the handler's error is caught, and \<^verbatim>\<open>dispatch\<close> throws a ReferenceError in its
  place; the state of the Epic is 0 as before, but the staged state and the staged value
  of the condition are still there, and \<^verbatim>\<open>afterCycle\<close> stays set. In a module the
  first dispatch throws a ReferenceError before the handler is called and leaves
  \<^verbatim>\<open>inCycle\<close> set; the second one runs the handler outside of any \<^verbatim>\<open>try\<close>, its
  error leaves \<^verbatim>\<open>dispatch\<close> at once, and the staged state stays.
\<close>

theorem dispatch_no_rollback:
  "fst (dispatch False exConfig exHost (AString ''a'') throwingStore) = Inl ReferenceError \<and>
   map_option (\<lambda>e. (state (self e), state' (self e)))
     (epicRegistry (snd (dispatch False exConfig exHost (AString ''a'') throwingStore)) ''e'')
     = Some (Num 0, Some (Num 0)) \<and>
   value' (conds (snd (dispatch False exConfig exHost (AString ''a'') throwingStore)) 0)
     = Some Undefined \<and>
   afterCycle (snd (dispatch False exConfig exHost (AString ''a'') throwingStore)) \<and>
   fst (dispatch True exConfig exHost (AString ''a'') throwingStore) = Inl ReferenceError \<and>
   handlerCalls (snd (dispatch True exConfig exHost (AString ''a'') throwingStore)) = [] \<and>
   inCycle (snd (dispatch True exConfig exHost (AString ''a'') throwingStore)) \<and>
   fst (dispatch True exConfig exHost (AString ''a'')
         (snd (dispatch True exConfig exHost (AString ''a'') throwingStore)))
     = Inl (Thrown (Str ''boom'')) \<and>
   map_option (\<lambda>e. (state (self e), state' (self e)))
     (epicRegistry (snd (dispatch True exConfig exHost (AString ''a'')
         (snd (dispatch True exConfig exHost (AString ''a'') throwingStore)))) ''e'')
     = Some (Num 0, Some (Num 0))"
  by (simp add: throwingStore_def throwingEpic_def throwing_def ex_defs run_defs)

text \<open>
  C4, a run of the code. On a store created with undo enabled, \<^verbatim>\<open>undo()\<close> with an
  empty undo stack and \<^verbatim>\<open>redo()\<close> with an empty redo stack change nothing, and throw
  a TypeError.
\<close>

theorem undo_empty_throws:
  "undoRedo Undo exConfig exHost (createStore exHost)
     = (Inl TypeError, createStore exHost) \<and>
   undoRedo Redo exConfig exHost (createStore exHost)
     = (Inl TypeError, createStore exHost)"
  by (simp add: undoRedo_def handleChange_def createStore_def exConfig_def)

text \<open>
  C9, a run of the code. The Epic \<^verbatim>\<open>e1\<close> has a reducer on the pattern \<^verbatim>\<open>a*\<close>, the
  Epic \<^verbatim>\<open>e2\<close> a reducer on \<^verbatim>\<open>e1\<close>. The action \<^verbatim>\<open>ab\<close> matches the pattern and
  the handler of \<^verbatim>\<open>e1\<close> is called; then \<^verbatim>\<open>processAction\<close> ends with a
  ReferenceError: no action of the type \<^verbatim>\<open>e1\<close> is processed, and the handler of
  \<^verbatim>\<open>e2\<close> is not called.
\<close>

theorem pattern_update_not_chained:
  "patternMatches (regExpOther exHost) ''a*'' ''ab'' = Some True \<and>
   fst (processAction exConfig exHost
      \<lparr>type = ''ab'', payload = Undefined, target = None\<rparr> True patternStore)
     = Inl ReferenceError \<and>
   map callEpic (handlerCalls (snd (processAction exConfig exHost
      \<lparr>type = ''ab'', payload = Undefined, target = None\<rparr> True patternStore))) = [''e1''] \<and>
   actionCache (snd (processAction exConfig exHost
      \<lparr>type = ''ab'', payload = Undefined, target = None\<rparr> True patternStore)) ''e1'' = None"
  by (simp add: patternStore_def patternEpic_def followerEpic_def setOne_def ex_defs run_defs
      patternMatches_def getRegexFromPattern_def newRegExp_def parseRegExp_def syntaxChar_def
      lineTerminator_def)

text \<open>
  C10, a run of the code. On a store without Epics and without listeners, where no
  listener can throw, \<^verbatim>\<open>dispatch('a')\<close> throws a ReferenceError, in a module and as
  sloppy code.
\<close>

theorem dispatch_always_throws:
  "fst (dispatch True exConfig exHost (AString ''a'') (createStore exHost))
     = Inl ReferenceError \<and>
   fst (dispatch False exConfig exHost (AString ''a'') (createStore exHost))
     = Inl ReferenceError"
  by (simp add: createStore_def ex_defs run_defs)

end
